theory Spec2Isabelle
  imports Complex_Main
begin

section \<open>Python values, exceptions and effects\<close>

text \<open>
  The engine of \<^verbatim>\<open>src/actions.py\<close> receives its actions as parsed JSON
  (\<^verbatim>\<open>Dict[str, Any]\<close>), so a value is one of the JSON shapes. A dict is an
  association list read with \<open>map_of\<close>; a float is its real value (NaN and the
  infinities are left out).
\<close>

datatype pyval =
    PNone
  | PBool bool
  | PInt int
  | PFloat real
  | PStr string
  | PList "pyval list"
  | PDict "(string \<times> pyval) list"

text \<open>Python's truth value of an object, as \<^verbatim>\<open>if x\<close> and \<^verbatim>\<open>not x\<close> read it.\<close>

fun truthy :: "pyval \<Rightarrow> bool" where
  "truthy PNone = False"
| "truthy (PBool b) = b"
| "truthy (PInt n) = (n \<noteq> 0)"
| "truthy (PFloat r) = (r \<noteq> 0)"
| "truthy (PStr s) = (s \<noteq> [])"
| "truthy (PList xs) = (xs \<noteq> [])"
| "truthy (PDict kvs) = (kvs \<noteq> [])"

text \<open>
  Exceptions are values. \<open>AttributeError\<close> and \<open>TypeError\<close> are the ones the
  interpreter raises on an ill-typed operation (their wording is not modelled);
  \<open>ValueError\<close> and \<open>NoSuchElementException\<close> are raised by the source with the
  message they carry; \<open>TimeoutException\<close> and \<open>OtherException\<close> come from the
  driver, the regular-expression library or the clock. Only subclasses of
  \<^verbatim>\<open>Exception\<close> are modelled.
\<close>

datatype exn =
    AttributeError
  | TypeError
  | KeyError string
  | ValueError string
  | TimeoutException string
  | NoSuchElementException string
  | OtherException string

text \<open>
  A computation threads the world (browser session, clock, random generator, log)
  and returns either the exception it raised or a value. The world is returned in
  both cases: what was done before a raise stays done.
\<close>

type_synonym ('a, 'w) comp = "'w \<Rightarrow> (exn + 'a) \<times> 'w"

definition returnE :: "'a \<Rightarrow> ('a, 'w) comp" where
  "returnE a = (\<lambda>w. (Inr a, w))"

definition raiseE :: "exn \<Rightarrow> ('a, 'w) comp" where
  "raiseE e = (\<lambda>w. (Inl e, w))"

definition liftE :: "exn + 'a \<Rightarrow> ('a, 'w) comp" where
  "liftE r = (\<lambda>w. (r, w))"

definition bindE :: "('a, 'w) comp \<Rightarrow> ('a \<Rightarrow> ('b, 'w) comp) \<Rightarrow> ('b, 'w) comp" where
  "bindE m f = (\<lambda>w. case m w of (Inl e, w') \<Rightarrow> (Inl e, w') | (Inr a, w') \<Rightarrow> f a w')"

text \<open>\<^verbatim>\<open>try: m except Exception as e: h(e)\<close>\<close>

definition catchE :: "('a, 'w) comp \<Rightarrow> (exn \<Rightarrow> ('a, 'w) comp) \<Rightarrow> ('a, 'w) comp" where
  "catchE m h = (\<lambda>w. case m w of (Inl e, w') \<Rightarrow> h e w' | (Inr a, w') \<Rightarrow> (Inr a, w'))"

subsection \<open>Operations on values\<close>

definition dict_get :: "(string \<times> pyval) list \<Rightarrow> string \<Rightarrow> pyval \<Rightarrow> pyval" where
  "dict_get kvs k d = (case map_of kvs k of None \<Rightarrow> d | Some v \<Rightarrow> v)"

text \<open>\<^verbatim>\<open>x.get(k, d)\<close>: only a dict has the method.\<close>

fun py_get :: "pyval \<Rightarrow> string \<Rightarrow> pyval \<Rightarrow> exn + pyval" where
  "py_get (PDict kvs) k d = Inr (dict_get kvs k d)"
| "py_get _ k d = Inl AttributeError"

definition startswith :: "string \<Rightarrow> string \<Rightarrow> bool" where
  "startswith s p = (take (length p) s = p)"

fun has_substring :: "string \<Rightarrow> string \<Rightarrow> bool" where
  "has_substring k [] = (k = [])"
| "has_substring k (c # cs) = (startswith (c # cs) k \<or> has_substring k cs)"

text \<open>
  \<^verbatim>\<open>k in x\<close> for a string \<open>k\<close>: a key of a dict, a substring of a string, an
  element of a list; a \<^verbatim>\<open>TypeError\<close> on the other shapes.
\<close>

fun py_contains :: "string \<Rightarrow> pyval \<Rightarrow> exn + bool" where
  "py_contains k (PDict kvs) = Inr (map_of kvs k \<noteq> None)"
| "py_contains k (PStr s) = Inr (has_substring k s)"
| "py_contains k (PList xs) = Inr (PStr k \<in> set xs)"
| "py_contains k _ = Inl TypeError"

text \<open>\<^verbatim>\<open>x[k]\<close> for a string \<open>k\<close>.\<close>

fun py_subscript :: "pyval \<Rightarrow> string \<Rightarrow> exn + pyval" where
  "py_subscript (PDict kvs) k = (case map_of kvs k of None \<Rightarrow> Inl (KeyError k) | Some v \<Rightarrow> Inr v)"
| "py_subscript _ k = Inl TypeError"

text \<open>
  The items \<^verbatim>\<open>enumerate(x)\<close> yields: the elements of a list, the characters of
  a string, the keys of a dict; a \<^verbatim>\<open>TypeError\<close> on the other shapes.
  \<^verbatim>\<open>len(x)\<close> is the number of these items.
\<close>

fun py_iter :: "pyval \<Rightarrow> exn + pyval list" where
  "py_iter (PList xs) = Inr xs"
| "py_iter (PStr s) = Inr (map (\<lambda>c. PStr [c]) s)"
| "py_iter (PDict kvs) = Inr (map (\<lambda>kv. PStr (fst kv)) kvs)"
| "py_iter _ = Inl TypeError"

text \<open>\<^verbatim>\<open>x > 0\<close>\<close>

fun py_gt_zero :: "pyval \<Rightarrow> exn + bool" where
  "py_gt_zero (PInt n) = Inr (0 < n)"
| "py_gt_zero (PBool b) = Inr b"
| "py_gt_zero (PFloat r) = Inr (0 < r)"
| "py_gt_zero _ = Inl TypeError"

section \<open>Results and the execution report\<close>

text \<open>\<^verbatim>\<open>class ActionResult\<close>; \<open>error\<close> is \<open>None\<close> unless the step failed.\<close>

record ActionResult =
  index :: int
  type :: pyval
  status :: string
  duration :: int
  message :: string
  selector :: pyval
  error :: "string option"

text \<open>\<^verbatim>\<open>class ActionExecutionResults\<close>\<close>

record ActionExecutionResults =
  details :: "ActionResult list"
  executed :: int
  successful :: int
  failed :: int
  skipped :: int

definition new_results :: ActionExecutionResults where
  "new_results = \<lparr>details = [], executed = 0, successful = 0, failed = 0, skipped = 0\<rparr>"

definition add_result :: "ActionExecutionResults \<Rightarrow> ActionResult \<Rightarrow> ActionExecutionResults" where
  "add_result self result =
     (let self = self\<lparr>details := details self @ [result]\<rparr> in
      if status result = ''success'' then
        self\<lparr>successful := successful self + 1, executed := executed self + 1\<rparr>
      else if status result = ''failed'' then
        self\<lparr>failed := failed self + 1, executed := executed self + 1\<rparr>
      else if status result = ''skipped'' then
        self\<lparr>skipped := skipped self + 1\<rparr>
      else self)"


section \<open>The environment\<close>

text \<open>
  Everything outside the engine is a capability of the environment \<open>E\<close> over an
  abstract world \<open>'w\<close>: the Selenium driver, the regular-expression library, the
  clock, the random generator and the logger. Each driver call may change the world
  and may raise. The five single-action executors (\<^verbatim>\<open>_execute_wait_action\<close> to
  \<^verbatim>\<open>_execute_press_enter_action\<close>) only turn a step into driver calls, sleeps
  and random draws and return a message or raise; they are capabilities too, so
  every statement below holds for whatever they do.
\<close>

datatype By = XPATH | CSS_SELECTOR

type_synonym element = nat

record 'w env =
  find_elements :: "By \<Rightarrow> string \<Rightarrow> (element list, 'w) comp"
  find_element :: "By \<Rightarrow> string \<Rightarrow> (element, 'w) comp"
  is_displayed :: "element \<Rightarrow> (bool, 'w) comp"
  wait_presence :: "int \<Rightarrow> By \<Rightarrow> string \<Rightarrow> (element, 'w) comp"
  element_text :: "element \<Rightarrow> (string, 'w) comp"
  current_url :: "(string, 'w) comp"
  execute_script :: "pyval \<Rightarrow> (pyval, 'w) comp"
  re_search :: "pyval \<Rightarrow> string \<Rightarrow> exn + bool"
  pause :: "'w \<Rightarrow> 'w"
  sleep_ms :: "pyval \<Rightarrow> (unit, 'w) comp"
  elapsed_ms :: "'w \<Rightarrow> 'w \<Rightarrow> int"
  format :: "pyval \<Rightarrow> string"
  describe :: "exn \<Rightarrow> string"
  log_warning :: "string \<Rightarrow> 'w \<Rightarrow> 'w"
  log_error :: "string \<Rightarrow> 'w \<Rightarrow> 'w"
  execute_wait_action :: "(string \<times> pyval) list \<Rightarrow> (string, 'w) comp"
  execute_click_action :: "(string \<times> pyval) list \<Rightarrow> (string, 'w) comp"
  execute_type_action :: "(string \<times> pyval) list \<Rightarrow> (string, 'w) comp"
  execute_press_enter_action :: "(string \<times> pyval) list \<Rightarrow> (string, 'w) comp"
  execute_execute_script_action :: "(string \<times> pyval) list \<Rightarrow> (string, 'w) comp"

text \<open>
  \<^item> \<open>wait_presence E t by s\<close> is
    \<^verbatim>\<open>WebDriverWait(driver, t / 1000.0).until(EC.presence_of_element_located((by, s)))\<close>;
  \<^item> \<open>re_search E p t\<close> is \<^verbatim>\<open>bool(re.search(p, t))\<close>;
  \<^item> \<open>pause E\<close> is \<^verbatim>\<open>time.sleep(random.uniform(0.1, 0.3))\<close>;
  \<^item> \<open>sleep_ms E v\<close> is \<^verbatim>\<open>time.sleep(v / 1000.0)\<close>;
  \<^item> \<open>elapsed_ms E w0 w\<close> is \<^verbatim>\<open>int((time.time() - start_time) * 1000)\<close> with
    \<^verbatim>\<open>start_time\<close> read in \<open>w0\<close> and \<^verbatim>\<open>time.time()\<close> in \<open>w\<close>;
  \<^item> \<open>format E v\<close> renders a number, list or dict inside an f-string, and
    \<open>describe E e\<close> is \<^verbatim>\<open>str(e)\<close> for the exceptions whose text the source
    does not build.
\<close>

definition effectE :: "('w \<Rightarrow> 'w) \<Rightarrow> (unit, 'w) comp" where
  "effectE f = (\<lambda>w. (Inr (), f w))"

text \<open>A value inside an f-string.\<close>

fun py_str :: "'w env \<Rightarrow> pyval \<Rightarrow> string" where
  "py_str E (PStr s) = s"
| "py_str E PNone = ''None''"
| "py_str E (PBool b) = (if b then ''True'' else ''False'')"
| "py_str E v = format E v"

text \<open>\<^verbatim>\<open>str(e)\<close>\<close>

fun exn_str :: "'w env \<Rightarrow> exn \<Rightarrow> string" where
  "exn_str E (ValueError m) = m"
| "exn_str E e = describe E e"

text \<open>The addressing scheme of a selector string.\<close>

definition by_of :: "string \<Rightarrow> By" where
  "by_of sel =
     (if startswith sel ''//'' \<or> startswith sel ''(//'' then XPATH else CSS_SELECTOR)"

text \<open>\<^verbatim>\<open>_get_element\<close>: only a timeout is rewritten, into a not-found error.\<close>

definition get_element :: "'w env \<Rightarrow> pyval \<Rightarrow> int \<Rightarrow> (element, 'w) comp" where
  "get_element E sel timeout =
     catchE
       (case sel of
          PStr s \<Rightarrow> wait_presence E timeout (by_of s) s
        | _ \<Rightarrow> raiseE AttributeError)
       (\<lambda>e. case e of
          TimeoutException m \<Rightarrow>
            raiseE (NoSuchElementException (''Element not found: '' @ py_str E sel))
        | _ \<Rightarrow> raiseE e)"

text \<open>\<^verbatim>\<open>_element_exists\<close> and \<^verbatim>\<open>_element_visible\<close>: every exception is \<open>False\<close>.\<close>

definition element_exists :: "'w env \<Rightarrow> pyval \<Rightarrow> (bool, 'w) comp" where
  "element_exists E sel =
     catchE
       (case sel of
          PStr s \<Rightarrow> bindE (find_elements E (by_of s) s) (\<lambda>elements. returnE (0 < length elements))
        | _ \<Rightarrow> raiseE AttributeError)
       (\<lambda>e. returnE False)"

definition element_visible :: "'w env \<Rightarrow> pyval \<Rightarrow> (bool, 'w) comp" where
  "element_visible E sel =
     catchE
       (case sel of
          PStr s \<Rightarrow> bindE (find_element E (by_of s) s) (\<lambda>element. is_displayed E element)
        | _ \<Rightarrow> raiseE AttributeError)
       (\<lambda>e. returnE False)"

section \<open>The condition evaluator\<close>

text \<open>The two guarded bodies of \<^verbatim>\<open>_evaluate_condition\<close> (lines 136-137 and 147-148).\<close>

definition text_matches_body :: "'w env \<Rightarrow> pyval \<Rightarrow> pyval \<Rightarrow> (bool, 'w) comp" where
  "text_matches_body E sel pattern =
     bindE (get_element E sel 2000) (\<lambda>element.
     bindE (element_text E element) (\<lambda>text.
     liftE (re_search E pattern text)))"

definition custom_body :: "'w env \<Rightarrow> pyval \<Rightarrow> (bool, 'w) comp" where
  "custom_body E condition =
     bindE (liftE (py_subscript condition ''ifCustom'')) (\<lambda>script.
     bindE (execute_script E script) (\<lambda>result.
     returnE (truthy result)))"

text \<open>\<^verbatim>\<open>_evaluate_condition\<close>: the chain of \<^verbatim>\<open>if\<close>/\<^verbatim>\<open>elif\<close> in its order.\<close>

definition evaluate_condition :: "'w env \<Rightarrow> pyval \<Rightarrow> (bool, 'w) comp" where
  "evaluate_condition E condition =
     (if \<not> truthy condition then returnE True
      else
      bindE (liftE (py_contains ''ifExists'' condition)) (\<lambda>c1.
      if c1 then
        bindE (liftE (py_subscript condition ''ifExists'')) (\<lambda>s. element_exists E s)
      else
      bindE (liftE (py_contains ''ifNotExists'' condition)) (\<lambda>c2.
      if c2 then
        bindE (liftE (py_subscript condition ''ifNotExists'')) (\<lambda>s.
        bindE (element_exists E s) (\<lambda>b. returnE (\<not> b)))
      else
      bindE (liftE (py_contains ''ifVisible'' condition)) (\<lambda>c3.
      if c3 then
        bindE (liftE (py_subscript condition ''ifVisible'')) (\<lambda>s. element_visible E s)
      else
      bindE (liftE (py_contains ''ifHidden'' condition)) (\<lambda>c4.
      if c4 then
        bindE (liftE (py_subscript condition ''ifHidden'')) (\<lambda>s.
        bindE (element_visible E s) (\<lambda>b. returnE (\<not> b)))
      else
      bindE (liftE (py_contains ''ifTextMatches'' condition)) (\<lambda>c5.
      if c5 then
        bindE (liftE (py_subscript condition ''ifTextMatches'')) (\<lambda>tm.
        bindE (liftE (py_get tm ''selector'' PNone)) (\<lambda>sel.
        bindE (liftE (py_get tm ''pattern'' PNone)) (\<lambda>pattern.
        catchE (text_matches_body E sel pattern) (\<lambda>e. returnE False))))
      else
      bindE (liftE (py_contains ''ifUrlMatches'' condition)) (\<lambda>c6.
      if c6 then
        bindE (liftE (py_subscript condition ''ifUrlMatches'')) (\<lambda>pattern.
        bindE (current_url E) (\<lambda>url.
        liftE (re_search E pattern url)))
      else
      bindE (liftE (py_contains ''ifCustom'' condition)) (\<lambda>c7.
      if c7 then
        catchE (custom_body E condition) (\<lambda>e. returnE False)
      else returnE True))))))))"

section \<open>The action dispatcher\<close>

text \<open>The chain of \<^verbatim>\<open>if action_type == ...\<close> (lines 335-346).\<close>

definition dispatch_action :: "'w env \<Rightarrow> pyval \<Rightarrow> (string \<times> pyval) list \<Rightarrow> (string, 'w) comp" where
  "dispatch_action E action_type action =
     (if action_type = PStr ''wait'' then execute_wait_action E action
      else if action_type = PStr ''click'' then execute_click_action E action
      else if action_type = PStr ''type'' then execute_type_action E action
      else if action_type = PStr ''press_enter'' then execute_press_enter_action E action
      else if action_type = PStr ''execute_script'' then execute_execute_script_action E action
      else raiseE (ValueError (''Unknown action type: '' @ py_str E action_type)))"

text \<open>\<^verbatim>\<open>if wait_after > 0: time.sleep(wait_after / 1000.0)\<close> (lines 349-351).\<close>

definition apply_wait_after :: "'w env \<Rightarrow> (string \<times> pyval) list \<Rightarrow> (unit, 'w) comp" where
  "apply_wait_after E action =
     (let wait_after = dict_get action ''waitAfter'' (PInt 0) in
      bindE (liftE (py_gt_zero wait_after)) (\<lambda>positive.
      if positive then sleep_ms E wait_after else returnE ()))"

text \<open>
  The body of the \<^verbatim>\<open>try\<close> of \<^verbatim>\<open>_execute_single_action\<close> (lines 321-361);
  \<open>start\<close> is the world in which \<^verbatim>\<open>start_time\<close> was read.
\<close>

definition attempt_action ::
  "'w env \<Rightarrow> (string \<times> pyval) list \<Rightarrow> int \<Rightarrow> 'w \<Rightarrow> (ActionResult, 'w) comp" where
  "attempt_action E action idx start =
     (let action_type = dict_get action ''type'' PNone;
          sel = dict_get action ''selector'' PNone;
          condition = dict_get action ''condition'' PNone in
      bindE (evaluate_condition E condition) (\<lambda>met.
      if \<not> met then
        (\<lambda>w. returnE
           \<lparr>index = idx, type = action_type, status = ''skipped'',
            duration = elapsed_ms E start w,
            message = ''Condition not met for '' @ py_str E action_type @ '' action'',
            selector = sel, error = None\<rparr> w)
      else
        bindE (dispatch_action E action_type action) (\<lambda>msg.
        bindE (apply_wait_after E action) (\<lambda>u.
        (\<lambda>w. returnE
           \<lparr>index = idx, type = action_type, status = ''success'',
            duration = elapsed_ms E start w, message = msg,
            selector = sel, error = None\<rparr> w)))))"

text \<open>The \<^verbatim>\<open>except Exception as e\<close> of \<^verbatim>\<open>_execute_single_action\<close> (lines 363-376).\<close>

definition failed_result ::
  "'w env \<Rightarrow> (string \<times> pyval) list \<Rightarrow> int \<Rightarrow> 'w \<Rightarrow> exn \<Rightarrow> (ActionResult, 'w) comp" where
  "failed_result E action idx start e =
     (\<lambda>w.
        let action_type = dict_get action ''type'' PNone;
            sel = dict_get action ''selector'' PNone;
            elapsed = elapsed_ms E start w;
            error_msg = exn_str E e;
            w' = log_warning E
                   (''Action '' @ format E (PInt idx) @ '' ('' @ py_str E action_type
                      @ '') failed: '' @ error_msg) w
        in returnE
             \<lparr>index = idx, type = action_type, status = ''failed'', duration = elapsed,
              message = ''Action failed: '' @ error_msg, selector = sel,
              error = Some error_msg\<rparr> w')"

text \<open>
  \<^verbatim>\<open>_execute_single_action\<close>. The two \<^verbatim>\<open>action.get\<close> before the
  \<^verbatim>\<open>try\<close> raise \<^verbatim>\<open>AttributeError\<close> when the action is not a dict.
\<close>

definition execute_single_action :: "'w env \<Rightarrow> pyval \<Rightarrow> int \<Rightarrow> (ActionResult, 'w) comp" where
  "execute_single_action E action idx =
     (\<lambda>start.
        case action of
          PDict kvs \<Rightarrow>
            catchE (attempt_action E kvs idx start) (failed_result E kvs idx start) start
        | _ \<Rightarrow> raiseE AttributeError start)"

section \<open>The group executor\<close>

text \<open>
  The two loops of \<^verbatim>\<open>_execute_action_group\<close> that record steps without running
  them (lines 389-397 and 414-422): one skipped result per step, indices counted up
  from \<open>i\<close>, duration left at its default 0. A step that is not a dict has no
  \<^verbatim>\<open>get\<close>.
\<close>

fun mark_skipped :: "string \<Rightarrow> int \<Rightarrow> pyval list \<Rightarrow> exn + ActionResult list" where
  "mark_skipped msg i [] = Inr []"
| "mark_skipped msg i (step # rest) =
     (case py_get step ''type'' (PStr ''unknown'') of
        Inl e \<Rightarrow> Inl e
      | Inr t \<Rightarrow>
          (case py_get step ''selector'' PNone of
             Inl e \<Rightarrow> Inl e
           | Inr s \<Rightarrow>
               (case mark_skipped msg (i + 1) rest of
                  Inl e \<Rightarrow> Inl e
                | Inr rs \<Rightarrow>
                    Inr (\<lparr>index = i, type = t, status = ''skipped'', duration = 0,
                          message = msg, selector = s, error = None\<rparr> # rs))))"

text \<open>
  The loop over the steps (lines 404-426): \<open>i\<close> is the position of \<open>step\<close> and
  \<open>rest\<close> the steps after it.
\<close>

fun group_loop ::
  "'w env \<Rightarrow> pyval \<Rightarrow> int \<Rightarrow> int \<Rightarrow> pyval list \<Rightarrow> (ActionResult list, 'w) comp" where
  "group_loop E continue_on_group_error base_index i [] = returnE []"
| "group_loop E continue_on_group_error base_index i (step # rest) =
     bindE (execute_single_action E step (base_index + i)) (\<lambda>result.
     bindE (if status result = ''failed'' then
              bindE (liftE (py_get step ''continueOnError'' continue_on_group_error))
                (\<lambda>continue_on_error. returnE (\<not> truthy continue_on_error))
            else returnE False) (\<lambda>stop.
     if stop then
       bindE (liftE (mark_skipped ''Skipped due to previous failure'' (base_index + i + 1) rest))
         (\<lambda>skipped_results. returnE (result # skipped_results))
     else
       bindE (effectE (pause E)) (\<lambda>u.
       bindE (group_loop E continue_on_group_error base_index (i + 1) rest) (\<lambda>results.
       returnE (result # results)))))"

text \<open>\<^verbatim>\<open>_execute_action_group\<close>\<close>

definition execute_action_group ::
  "'w env \<Rightarrow> pyval \<Rightarrow> int \<Rightarrow> (ActionResult list \<times> int, 'w) comp" where
  "execute_action_group E action_group base_index =
     bindE (liftE (py_get action_group ''condition'' PNone)) (\<lambda>group_condition.
     bindE (if truthy group_condition then
              bindE (evaluate_condition E group_condition) (\<lambda>met. returnE (\<not> met))
            else returnE False) (\<lambda>skip_group.
     if skip_group then
       bindE (liftE (py_get action_group ''steps'' (PList []))) (\<lambda>steps.
       bindE (liftE (py_iter steps)) (\<lambda>items.
       bindE (liftE (mark_skipped ''Group condition not met'' base_index items)) (\<lambda>results.
       returnE (results, int (length items)))))
     else
       bindE (liftE (py_get action_group ''steps'' (PList []))) (\<lambda>steps.
       bindE (liftE (py_get action_group ''continueOnError'' (PBool False)))
         (\<lambda>continue_on_group_error.
       bindE (liftE (py_iter steps)) (\<lambda>items.
       bindE (group_loop E continue_on_group_error base_index 0 items) (\<lambda>results.
       returnE (results, int (length items))))))))"

section \<open>The run coordinator\<close>

text \<open>The loop of \<^verbatim>\<open>execute_actions\<close> (lines 445-467).\<close>

fun actions_loop ::
  "'w env \<Rightarrow> int \<Rightarrow> ActionExecutionResults \<Rightarrow> pyval list \<Rightarrow> (ActionExecutionResults, 'w) comp"
  where
  "actions_loop E current_index results [] = returnE results"
| "actions_loop E current_index results (action # rest) =
     bindE (liftE (py_contains ''steps'' action)) (\<lambda>is_group.
     if is_group then
       bindE (execute_action_group E action current_index) (\<lambda>group.
       actions_loop E (current_index + snd group) (foldl add_result results (fst group)) rest)
     else
       bindE (execute_single_action E action current_index) (\<lambda>result.
       bindE (if status result = ''failed'' then
                bindE (liftE (py_get action ''continueOnError'' (PBool False)))
                  (\<lambda>continue_on_error. returnE (\<not> truthy continue_on_error))
              else returnE False) (\<lambda>stop.
       if stop then
         bindE (effectE (log_error E
                  (''Stopping action execution due to failure at index ''
                     @ format E (PInt (index result))))) (\<lambda>u.
         returnE (add_result results result))
       else
         bindE (effectE (pause E)) (\<lambda>u.
         actions_loop E (current_index + 1) (add_result results result) rest))))"

definition execute_actions :: "pyval list \<Rightarrow> 'w env \<Rightarrow> (ActionExecutionResults, 'w) comp" where
  "execute_actions actions E = actions_loop E 0 new_results actions"

section \<open>Vocabulary of the properties\<close>

text \<open>The number of results of a list that carry the status \<open>s\<close>.\<close>

definition count_status :: "string \<Rightarrow> ActionResult list \<Rightarrow> int" where
  "count_status s rs = int (length (filter (\<lambda>r. status r = s) rs))"

text \<open>The counters of a report agree with its details.\<close>

definition counters_ok :: "ActionExecutionResults \<Rightarrow> bool" where
  "counters_ok rep =
     (executed rep = successful rep + failed rep \<and>
      successful rep = count_status ''success'' (details rep) \<and>
      failed rep = count_status ''failed'' (details rep) \<and>
      skipped rep = count_status ''skipped'' (details rep))"

text \<open>The keys \<^verbatim>\<open>_evaluate_condition\<close> tests, in the order of its chain.\<close>

definition variant_keys :: "string list" where
  "variant_keys =
     [''ifExists'', ''ifNotExists'', ''ifVisible'', ''ifHidden'', ''ifTextMatches'',
      ''ifUrlMatches'', ''ifCustom'']"

text \<open>The action types \<^verbatim>\<open>_execute_single_action\<close> has an executor for.\<close>

definition known_types :: "pyval list" where
  "known_types =
     [PStr ''wait'', PStr ''click'', PStr ''type'', PStr ''press_enter'', PStr ''execute_script'']"

text \<open>The value is a dict, as every action and step of the data model is.\<close>

fun is_dict :: "pyval \<Rightarrow> bool" where
  "is_dict (PDict kvs) = True"
| "is_dict v = False"

text \<open>The indices of the results count up from \<open>i\<close> one by one.\<close>

fun contiguous_from :: "int \<Rightarrow> ActionResult list \<Rightarrow> bool" where
  "contiguous_from i [] = True"
| "contiguous_from i (r # rs) = (index r = i \<and> contiguous_from (i + 1) rs)"

text \<open>One of the three statuses the engine assigns.\<close>

definition engine_status :: "ActionResult \<Rightarrow> bool" where
  "engine_status r = (status r = ''success'' \<or> status r = ''failed'' \<or> status r = ''skipped'')"

text \<open>
  The record the group executor writes at index \<open>i\<close> for a step it does not run
  because an earlier step failed.
\<close>

definition propagated_skip :: "int \<Rightarrow> ActionResult \<Rightarrow> bool" where
  "propagated_skip i r =
     (index r = i \<and> status r = ''skipped'' \<and> duration r = 0 \<and>
      message r = ''Skipped due to previous failure'' \<and> error r = None)"

text \<open>
  \<^verbatim>\<open>step.get('continueOnError', action_group.get('continueOnError', False))\<close> as a
  truth value: the step's own flag, else the group's, else false.
\<close>

definition effective_continue_on_error :: "(string \<times> pyval) list \<Rightarrow> pyval \<Rightarrow> bool" where
  "effective_continue_on_error g step =
     (case py_get step ''continueOnError'' (dict_get g ''continueOnError'' (PBool False)) of
        Inl e \<Rightarrow> False
      | Inr v \<Rightarrow> truthy v)"

text \<open>
  \<^verbatim>\<open>action.get('continueOnError', False)\<close> as a truth value: the flag of a
  top-level action, false when absent.
\<close>

definition top_level_continue :: "pyval \<Rightarrow> bool" where
  "top_level_continue action =
     (case py_get action ''continueOnError'' (PBool False) of
        Inl e \<Rightarrow> False
      | Inr v \<Rightarrow> truthy v)"



text \<open>The line \<^verbatim>\<open>execute_actions\<close> logs when it stops (line 463).\<close>

definition stop_message :: "'w env \<Rightarrow> ActionResult \<Rightarrow> string" where
  "stop_message E r =
     ''Stopping action execution due to failure at index '' @ format E (PInt (index r))"

subsection \<open>An environment to run the engine in\<close>

text \<open>
  A world that is the list of what was done to it, oldest first, and a browser on an
  empty page: no element is ever found, a presence wait times out, a script raises,
  no pattern matches. A click on the selector \<open>#missing\<close> raises; every other
  executor returns its message. The clock ticks once per event, \<^verbatim>\<open>str(e)\<close> of an
  exception of the driver is \<open>error\<close>, and only the integers 0 to 9 are rendered.
\<close>

datatype event = Driver string | Ran string | Paused | Slept | Logged string

definition demo_format :: "pyval \<Rightarrow> string" where
  "demo_format v =
     (case v of
        PInt n \<Rightarrow> (if 0 \<le> n \<and> n < 10 then [''0123456789'' ! nat n] else ''<int>'')
      | _ \<Rightarrow> ''<value>'')"

definition demo_env :: "event list env" where
  "demo_env =
     \<lparr>find_elements = (\<lambda>b s w. (Inr [], w @ [Driver ''find_elements''])),
      find_element = (\<lambda>b s w. (Inl (NoSuchElementException s), w @ [Driver ''find_element''])),
      is_displayed = (\<lambda>el w. (Inr True, w @ [Driver ''is_displayed''])),
      wait_presence = (\<lambda>t b s w. (Inl (TimeoutException []), w @ [Driver ''wait''])),
      element_text = (\<lambda>el w. (Inr [], w @ [Driver ''text''])),
      current_url = (\<lambda>w. (Inr ''about:blank'', w @ [Driver ''current_url''])),
      execute_script =
        (\<lambda>script w. (Inl (OtherException ''javascript error''), w @ [Driver ''execute_script''])),
      re_search = (\<lambda>p t. Inr False),
      pause = (\<lambda>w. w @ [Paused]),
      sleep_ms = (\<lambda>v w. (Inr (), w @ [Slept])),
      elapsed_ms = (\<lambda>w0 w. int (length w) - int (length w0)),
      format = demo_format,
      describe = (\<lambda>e. ''error''),
      log_warning = (\<lambda>m w. w @ [Logged m]),
      log_error = (\<lambda>m w. w @ [Logged m]),
      execute_wait_action = (\<lambda>a w. (Inr ''Default wait executed'', w @ [Ran ''wait''])),
      execute_click_action =
        (\<lambda>a w. if dict_get a ''selector'' PNone = PStr ''#missing''
               then (Inl (NoSuchElementException ''Element not found: #missing''),
                     w @ [Ran ''click''])
               else (Inr ''Clicked element'', w @ [Ran ''click''])),
      execute_type_action = (\<lambda>a w. (Inr ''Typed'', w @ [Ran ''type''])),
      execute_press_enter_action =
        (\<lambda>a w. (Inr ''Pressed Enter on active element'', w @ [Ran ''press_enter''])),
      execute_execute_script_action =
        (\<lambda>a w. (Inr ''Executed script, result: None'', w @ [Ran ''execute_script'']))\<rparr>"

section \<open>Properties\<close>

subsection \<open>Computations\<close>

lemma returnE_apply [simp]: "returnE a w = (Inr a, w)"
  by (simp add: returnE_def)

lemma raiseE_apply [simp]: "raiseE e w = (Inl e, w)"
  by (simp add: raiseE_def)

lemma liftE_apply [simp]: "liftE r w = (r, w)"
  by (simp add: liftE_def)

lemma effectE_apply [simp]: "effectE f w = (Inr (), f w)"
  by (simp add: effectE_def)

lemma bindE_apply:
  "bindE m f w = (case m w of (Inl e, w') \<Rightarrow> (Inl e, w') | (Inr a, w') \<Rightarrow> f a w')"
  by (simp add: bindE_def)

lemma catchE_apply:
  "catchE m h w = (case m w of (Inl e, w') \<Rightarrow> h e w' | (Inr a, w') \<Rightarrow> (Inr a, w'))"
  by (simp add: catchE_def)

lemma bindE_returnE [simp]: "bindE (returnE a) f = f a"
  by (rule ext) (simp add: bindE_def)

lemma bindE_raiseE [simp]: "bindE (raiseE e) f = raiseE e"
  by (rule ext) (simp add: bindE_def)

lemma bindE_liftE_Inr [simp]: "bindE (liftE (Inr a)) f = f a"
  by (rule ext) (simp add: bindE_def)

lemma bindE_liftE_Inl [simp]: "bindE (liftE (Inl e)) f = raiseE e"
  by (rule ext) (simp add: bindE_def)

lemma catchE_returnE [simp]: "catchE (returnE a) h = returnE a"
  by (rule ext) (simp add: catchE_def)

lemma catchE_raiseE [simp]: "catchE (raiseE e) h = h e"
  by (rule ext) (simp add: catchE_def)

subsection \<open>The report\<close>

lemma details_add_result: "details (add_result rep r) = details rep @ [r]"
  by (simp add: add_result_def Let_def)

lemma details_foldl_add_result: "details (foldl add_result rep rs) = details rep @ rs"
  by (induction rs arbitrary: rep) (simp_all add: details_add_result)

lemma counters_ok_new: "counters_ok new_results"
  by (simp add: counters_ok_def new_results_def count_status_def)

lemma counters_ok_add: "counters_ok rep \<Longrightarrow> counters_ok (add_result rep r)"
  by (simp add: counters_ok_def add_result_def Let_def count_status_def)

lemma counters_ok_foldl: "counters_ok rep \<Longrightarrow> counters_ok (foldl add_result rep rs)"
  by (induction rs arbitrary: rep) (simp_all add: counters_ok_add)

text \<open>
  C5. After any sequence \<open>rs\<close> of \<open>add_result\<close> calls on a fresh report, the
  details are \<open>rs\<close> in order, \<open>executed = successful + failed\<close>, and each of the
  counters \<open>successful\<close>, \<open>failed\<close> and \<open>skipped\<close> is the number of recorded
  results with that status.
\<close>

theorem add_result_counters:
  "details (foldl add_result new_results rs) = rs \<and>
   executed (foldl add_result new_results rs)
     = successful (foldl add_result new_results rs) + failed (foldl add_result new_results rs) \<and>
   successful (foldl add_result new_results rs) = count_status ''success'' rs \<and>
   failed (foldl add_result new_results rs) = count_status ''failed'' rs \<and>
   skipped (foldl add_result new_results rs) = count_status ''skipped'' rs"
proof -
  have d: "details (foldl add_result new_results rs) = rs"
    by (simp add: details_foldl_add_result new_results_def)
  have "counters_ok (foldl add_result new_results rs)"
    by (rule counters_ok_foldl) (rule counters_ok_new)
  with d show ?thesis
    by (simp add: counters_ok_def)
qed

subsection \<open>The condition evaluator\<close>

lemma map_of_variant_keys:
  assumes "\<forall>k\<in>set variant_keys. map_of kvs k = None"
  shows "map_of kvs ''ifExists'' = None" "map_of kvs ''ifNotExists'' = None"
    "map_of kvs ''ifVisible'' = None" "map_of kvs ''ifHidden'' = None"
    "map_of kvs ''ifTextMatches'' = None" "map_of kvs ''ifUrlMatches'' = None"
    "map_of kvs ''ifCustom'' = None"
  using assms by (simp_all add: variant_keys_def)

lemma demo_no_condition: "evaluate_condition demo_env PNone w = (Inr True, w)"
  by (simp add: evaluate_condition_def)

text \<open>
  C9. An absent predicate (\<open>None\<close>) evaluates to true, and so does every predicate
  dict that has none of the seven keys the evaluator tests; neither touches the
  driver.
\<close>

theorem evaluate_condition_permissive:
  assumes "\<forall>k\<in>set variant_keys. map_of kvs k = None"
  shows "evaluate_condition E PNone w = (Inr True, w) \<and>
         evaluate_condition E (PDict kvs) w = (Inr True, w)"
  by (simp add: evaluate_condition_def map_of_variant_keys [OF assms])

theorem evaluate_condition_permissive_witness:
  "evaluate_condition demo_env PNone [] = (Inr True, []) \<and>
   evaluate_condition demo_env (PDict [(''unless'', PStr ''#modal'')]) [] = (Inr True, [])"
  using evaluate_condition_permissive [of "[(''unless'', PStr ''#modal'')]" demo_env "[]"]
  by (simp add: variant_keys_def)

subsection \<open>The dispatcher\<close>

lemma failed_result_apply:
  "failed_result E action idx start e w =
     (Inr \<lparr>index = idx, type = dict_get action ''type'' PNone, status = ''failed'',
            duration = elapsed_ms E start w,
            message = ''Action failed: '' @ exn_str E e,
            selector = dict_get action ''selector'' PNone,
            error = Some (exn_str E e)\<rparr>,
      log_warning E
        (''Action '' @ format E (PInt idx) @ '' ('' @ py_str E (dict_get action ''type'' PNone)
           @ '') failed: '' @ exn_str E e) w)"
  by (simp add: failed_result_def Let_def)

lemma execute_single_action_raised:
  assumes "attempt_action E action idx w w = (Inl e, w1)"
  shows "execute_single_action E (PDict action) idx w = failed_result E action idx w e w1"
  using assms by (simp add: execute_single_action_def catchE_apply)

lemma execute_single_action_returned:
  assumes "attempt_action E action idx w w = (Inr r, w1)"
  shows "execute_single_action E (PDict action) idx w = (Inr r, w1)"
  using assms by (simp add: execute_single_action_def catchE_apply)

lemma attempt_action_status:
  assumes "attempt_action E action idx start w = (Inr r, w1)"
  shows "index r = idx \<and> (status r = ''success'' \<or> status r = ''skipped'')"
  using assms
  by (auto simp: attempt_action_def Let_def bindE_apply split: prod.splits sum.splits if_splits)

lemma execute_single_action_total:
  "\<exists>r w'. execute_single_action E (PDict action) idx w = (Inr r, w') \<and> index r = idx \<and>
     (status r = ''success'' \<or> status r = ''failed'' \<or> status r = ''skipped'')"
proof (cases "attempt_action E action idx w w")
  case (Pair res w1)
  show ?thesis
  proof (cases res)
    case (Inl e)
    with Pair show ?thesis
      by (simp add: execute_single_action_raised failed_result_apply)
  next
    case (Inr r)
    with Pair attempt_action_status [of E action idx w w r w1] show ?thesis
      by (auto simp: execute_single_action_returned)
  qed
qed

lemma attempt_action_executor_raised:
  assumes "evaluate_condition E (dict_get action ''condition'' PNone) w = (Inr True, w1)"
    and "dispatch_action E (dict_get action ''type'' PNone) action w1 = (Inl e, w2)"
  shows "attempt_action E action idx start w = (Inl e, w2)"
  using assms by (simp add: attempt_action_def Let_def bindE_apply)

lemma dispatch_action_unknown:
  assumes "t \<notin> set known_types"
  shows "dispatch_action E t action = raiseE (ValueError (''Unknown action type: '' @ py_str E t))"
  using assms by (simp add: dispatch_action_def known_types_def)

text \<open>
  C7. For every step that is a dict, \<open>execute_single_action\<close> returns a result and
  never raises. When the step's condition is met and the executor chosen by its type
  raises \<open>e\<close>, the result is failed, carries \<^verbatim>\<open>str(e)\<close> as its error and in its
  message, and the time elapsed up to the raise as its duration. A type without an
  executor is such a raise (a \<^verbatim>\<open>ValueError\<close>), so the step fails; it is not skipped.
\<close>

theorem execute_single_action_converts_errors:
  "(\<exists>r w'. execute_single_action E (PDict action) idx w = (Inr r, w')) \<and>
   (\<forall>e w1 w2.
      evaluate_condition E (dict_get action ''condition'' PNone) w = (Inr True, w1) \<and>
      dispatch_action E (dict_get action ''type'' PNone) action w1 = (Inl e, w2) \<longrightarrow>
      execute_single_action E (PDict action) idx w =
        (Inr \<lparr>index = idx, type = dict_get action ''type'' PNone, status = ''failed'',
               duration = elapsed_ms E w w2,
               message = ''Action failed: '' @ exn_str E e,
               selector = dict_get action ''selector'' PNone,
               error = Some (exn_str E e)\<rparr>,
         log_warning E
           (''Action '' @ format E (PInt idx) @ '' (''
              @ py_str E (dict_get action ''type'' PNone) @ '') failed: '' @ exn_str E e) w2)) \<and>
   (\<forall>w1.
      dict_get action ''type'' PNone \<notin> set known_types \<and>
      evaluate_condition E (dict_get action ''condition'' PNone) w = (Inr True, w1) \<longrightarrow>
      (\<exists>r w'. execute_single_action E (PDict action) idx w = (Inr r, w') \<and>
         status r = ''failed'' \<and>
         error r = Some (''Unknown action type: '' @ py_str E (dict_get action ''type'' PNone))))"
proof (intro conjI allI impI)
  show "\<exists>r w'. execute_single_action E (PDict action) idx w = (Inr r, w')"
    using execute_single_action_total [of E action idx w] by blast
next
  fix e w1 w2
  assume h: "evaluate_condition E (dict_get action ''condition'' PNone) w = (Inr True, w1) \<and>
      dispatch_action E (dict_get action ''type'' PNone) action w1 = (Inl e, w2)"
  then have "attempt_action E action idx w w = (Inl e, w2)"
    by (simp add: attempt_action_executor_raised)
  then show "execute_single_action E (PDict action) idx w =
        (Inr \<lparr>index = idx, type = dict_get action ''type'' PNone, status = ''failed'',
               duration = elapsed_ms E w w2,
               message = ''Action failed: '' @ exn_str E e,
               selector = dict_get action ''selector'' PNone,
               error = Some (exn_str E e)\<rparr>,
         log_warning E
           (''Action '' @ format E (PInt idx) @ '' (''
              @ py_str E (dict_get action ''type'' PNone) @ '') failed: '' @ exn_str E e) w2)"
    by (simp add: execute_single_action_raised failed_result_apply)
next
  fix w1
  assume h: "dict_get action ''type'' PNone \<notin> set known_types \<and>
      evaluate_condition E (dict_get action ''condition'' PNone) w = (Inr True, w1)"
  then have "attempt_action E action idx w w =
      (Inl (ValueError (''Unknown action type: '' @ py_str E (dict_get action ''type'' PNone))), w1)"
    by (simp add: attempt_action_executor_raised dispatch_action_unknown)
  then show "\<exists>r w'. execute_single_action E (PDict action) idx w = (Inr r, w') \<and>
         status r = ''failed'' \<and>
         error r = Some (''Unknown action type: '' @ py_str E (dict_get action ''type'' PNone))"
    by (simp add: execute_single_action_raised failed_result_apply)
qed

theorem execute_single_action_converts_errors_witness:
  "execute_single_action demo_env
     (PDict [(''type'', PStr ''click''), (''selector'', PStr ''#missing'')]) 3 [] =
     (Inr \<lparr>index = 3, type = PStr ''click'', status = ''failed'', duration = 1,
            message = ''Action failed: error'', selector = PStr ''#missing'',
            error = Some ''error''\<rparr>,
      [Ran ''click'', Logged ''Action 3 (click) failed: error'']) \<and>
   (\<exists>r w'. execute_single_action demo_env (PDict [(''type'', PStr ''scroll'')]) 0 [] = (Inr r, w') \<and>
      status r = ''failed'' \<and> error r = Some ''Unknown action type: scroll'')"
proof -
  let ?a = "[(''type'', PStr ''click''), (''selector'', PStr ''#missing'')]"
  let ?b = "[(''type'', PStr ''scroll'')]"
  have c: "evaluate_condition demo_env (dict_get ?a ''condition'' PNone) [] = (Inr True, [])"
    by (simp add: dict_get_def demo_no_condition)
  have d: "dispatch_action demo_env (dict_get ?a ''type'' PNone) ?a [] =
             (Inl (NoSuchElementException ''Element not found: #missing''), [Ran ''click''])"
    by (simp add: dict_get_def dispatch_action_def demo_env_def)
  have c': "evaluate_condition demo_env (dict_get ?b ''condition'' PNone) [] = (Inr True, [])"
    by (simp add: dict_get_def demo_no_condition)
  have t': "dict_get ?b ''type'' PNone \<notin> set known_types"
    by (simp add: dict_get_def known_types_def)
  from execute_single_action_converts_errors [of demo_env ?a 3 "[]"] c d
  have "execute_single_action demo_env (PDict ?a) 3 [] =
     (Inr \<lparr>index = 3, type = PStr ''click'', status = ''failed'', duration = 1,
            message = ''Action failed: error'', selector = PStr ''#missing'',
            error = Some ''error''\<rparr>,
      [Ran ''click'', Logged ''Action 3 (click) failed: error''])"
    by (simp add: dict_get_def demo_env_def demo_format_def)
  moreover from execute_single_action_converts_errors [of demo_env ?b 0 "[]"] c' t'
  have "\<exists>r w'. execute_single_action demo_env (PDict ?b) 0 [] = (Inr r, w') \<and>
      status r = ''failed'' \<and> error r = Some ''Unknown action type: scroll''"
    by (simp add: dict_get_def)
  ultimately show ?thesis by simp
qed

lemma evaluate_condition_text_matches:
  assumes "map_of c ''ifExists'' = None" "map_of c ''ifNotExists'' = None"
    "map_of c ''ifVisible'' = None" "map_of c ''ifHidden'' = None"
    and "map_of c ''ifTextMatches'' = Some (PDict tm)"
  shows "evaluate_condition E (PDict c) =
           catchE (text_matches_body E (dict_get tm ''selector'' PNone) (dict_get tm ''pattern'' PNone))
             (\<lambda>e. returnE False)"
proof -
  from assms(5) have "c \<noteq> []" by auto
  with assms show ?thesis
    by (simp add: evaluate_condition_def)
qed

lemma evaluate_condition_custom:
  assumes "map_of c ''ifExists'' = None" "map_of c ''ifNotExists'' = None"
    "map_of c ''ifVisible'' = None" "map_of c ''ifHidden'' = None"
    "map_of c ''ifTextMatches'' = None" "map_of c ''ifUrlMatches'' = None"
    and "map_of c ''ifCustom'' = Some script"
  shows "evaluate_condition E (PDict c) =
           catchE (bindE (execute_script E script) (\<lambda>result. returnE (truthy result)))
             (\<lambda>e. returnE False)"
proof -
  from assms(7) have "c \<noteq> []" by auto
  with assms show ?thesis
    by (simp add: evaluate_condition_def custom_body_def)
qed

lemma attempt_action_condition_false:
  assumes "evaluate_condition E (dict_get action ''condition'' PNone) w = (Inr False, w1)"
  shows "attempt_action E action idx start w =
           (Inr \<lparr>index = idx, type = dict_get action ''type'' PNone, status = ''skipped'',
                  duration = elapsed_ms E start w1,
                  message = ''Condition not met for '' @ py_str E (dict_get action ''type'' PNone)
                             @ '' action'',
                  selector = dict_get action ''selector'' PNone, error = None\<rparr>, w1)"
  using assms by (simp add: attempt_action_def Let_def bindE_apply)

lemma execute_single_action_condition_false:
  assumes "map_of action ''condition'' = Some c"
    and "evaluate_condition E c w = (Inr False, w1)"
  shows "\<exists>r. execute_single_action E (PDict action) idx w = (Inr r, w1) \<and>
           status r = ''skipped'' \<and> error r = None"
proof -
  from assms have "evaluate_condition E (dict_get action ''condition'' PNone) w = (Inr False, w1)"
    by (simp add: dict_get_def)
  then show ?thesis
    by (simp add: execute_single_action_returned attempt_action_condition_false)
qed

lemma demo_text_matches_raises:
  "text_matches_body demo_env (PStr ''#banner'') (PStr ''Welcome'') [] =
     (Inl (NoSuchElementException ''Element not found: #banner''), [Driver ''wait''])"
  by (simp add: text_matches_body_def get_element_def catchE_apply bindE_apply demo_env_def)

text \<open>
  C8. Take a predicate dict whose first tested key is \<open>ifTextMatches\<close> (with a dict
  of selector and pattern) or \<open>ifCustom\<close>. If the guarded body raises \<open>e\<close> (the
  element lookup, the read of its text or the pattern search for the first, the
  script for the second), the evaluator returns \<open>False\<close> in the world the raise left
  and raises nothing; a step gated by that predicate is then skipped, with no error,
  and not failed.
\<close>

theorem condition_errors_swallowed:
  assumes "map_of c ''ifExists'' = None" "map_of c ''ifNotExists'' = None"
    "map_of c ''ifVisible'' = None" "map_of c ''ifHidden'' = None"
    and "(map_of c ''ifTextMatches'' = Some (PDict tm) \<and>
          text_matches_body E (dict_get tm ''selector'' PNone) (dict_get tm ''pattern'' PNone) w
            = (Inl e, w1)) \<or>
         (map_of c ''ifTextMatches'' = None \<and> map_of c ''ifUrlMatches'' = None \<and>
          map_of c ''ifCustom'' = Some script \<and> execute_script E script w = (Inl e, w1))"
  shows "evaluate_condition E (PDict c) w = (Inr False, w1) \<and>
         (\<forall>action idx. map_of action ''condition'' = Some (PDict c) \<longrightarrow>
            (\<exists>r. execute_single_action E (PDict action) idx w = (Inr r, w1) \<and>
               status r = ''skipped'' \<and> error r = None))"
proof -
  have ev: "evaluate_condition E (PDict c) w = (Inr False, w1)"
    using assms(5)
  proof
    assume "map_of c ''ifTextMatches'' = Some (PDict tm) \<and>
          text_matches_body E (dict_get tm ''selector'' PNone) (dict_get tm ''pattern'' PNone) w
            = (Inl e, w1)"
    then show ?thesis
      by (simp add: evaluate_condition_text_matches [OF assms(1-4)] catchE_apply)
  next
    assume "map_of c ''ifTextMatches'' = None \<and> map_of c ''ifUrlMatches'' = None \<and>
          map_of c ''ifCustom'' = Some script \<and> execute_script E script w = (Inl e, w1)"
    then show ?thesis
      by (simp add: evaluate_condition_custom [OF assms(1-4)] catchE_apply bindE_apply)
  qed
  then show ?thesis
    by (auto intro: execute_single_action_condition_false)
qed

theorem condition_errors_swallowed_witness:
  "evaluate_condition demo_env
     (PDict [(''ifTextMatches'',
              PDict [(''selector'', PStr ''#banner''), (''pattern'', PStr ''Welcome'')])]) []
     = (Inr False, [Driver ''wait'']) \<and>
   (\<exists>r. execute_single_action demo_env
      (PDict [(''type'', PStr ''click''),
              (''condition'', PDict [(''ifCustom'', PStr ''return ready()'')])]) 0 []
        = (Inr r, [Driver ''execute_script'']) \<and> status r = ''skipped'' \<and> error r = None)"
proof -
  let ?tm = "[(''selector'', PStr ''#banner''), (''pattern'', PStr ''Welcome'')]"
  let ?c = "[(''ifTextMatches'', PDict ?tm)]"
  let ?d = "[(''ifCustom'', PStr ''return ready()'')]"
  let ?a = "[(''type'', PStr ''click''), (''condition'', PDict ?d)]"
  have t: "text_matches_body demo_env (dict_get ?tm ''selector'' PNone)
             (dict_get ?tm ''pattern'' PNone) [] =
           (Inl (NoSuchElementException ''Element not found: #banner''), [Driver ''wait''])"
    by (simp add: dict_get_def demo_text_matches_raises)
  have s: "execute_script demo_env (PStr ''return ready()'') [] =
           (Inl (OtherException ''javascript error''), [Driver ''execute_script''])"
    by (simp add: demo_env_def)
  have "evaluate_condition demo_env (PDict ?c) [] = (Inr False, [Driver ''wait''])"
    using condition_errors_swallowed [of ?c ?tm demo_env "[]" _ "[Driver ''wait'']"] t
    by simp
  moreover have "\<exists>r. execute_single_action demo_env (PDict ?a) 0 []
        = (Inr r, [Driver ''execute_script'']) \<and> status r = ''skipped'' \<and> error r = None"
    using condition_errors_swallowed
      [of ?d _ demo_env "[]" _ "[Driver ''execute_script'']" "PStr ''return ready()''"] s
    by simp
  ultimately show ?thesis by simp
qed

subsection \<open>The group executor\<close>

lemma is_dict_iff: "is_dict v \<longleftrightarrow> (\<exists>kvs. v = PDict kvs)"
  by (cases v) simp_all

lemma contiguous_from_nth:
  "contiguous_from i rs \<Longrightarrow> k < length rs \<Longrightarrow> index (rs ! k) = i + int k"
proof (induction rs arbitrary: i k)
  case Nil
  then show ?case by simp
next
  case (Cons r rs)
  then show ?case by (cases k) auto
qed

lemma contiguous_from_map:
  "contiguous_from i rs \<Longrightarrow> map index rs = map (\<lambda>k. i + int k) [0..<length rs]"
  by (rule nth_equalityI) (simp_all add: contiguous_from_nth)

lemma contiguous_from_append:
  "contiguous_from i (xs @ ys) \<longleftrightarrow> contiguous_from i xs \<and> contiguous_from (i + int (length xs)) ys"
  by (induction xs arbitrary: i) (auto simp: algebra_simps)

lemma mark_skipped_returned:
  "mark_skipped msg i steps = Inr rs \<Longrightarrow>
     length rs = length steps \<and> contiguous_from i rs \<and>
     (\<forall>r\<in>set rs. status r = ''skipped'' \<and> duration r = 0 \<and> message r = msg \<and> error r = None)"
proof (induction steps arbitrary: i rs)
  case Nil
  then show ?case by simp
next
  case (Cons step rest)
  then show ?case
    by (auto split: sum.splits)
qed

lemma mark_skipped_total:
  "\<forall>s\<in>set steps. is_dict s \<Longrightarrow> \<exists>rs. mark_skipped msg i steps = Inr rs"
proof (induction steps arbitrary: i)
  case Nil
  then show ?case by simp
next
  case (Cons step rest)
  then obtain kvs where "step = PDict kvs" by (auto simp: is_dict_iff)
  moreover from Cons obtain rs where "mark_skipped msg (i + 1) rest = Inr rs" by fastforce
  ultimately show ?case by simp
qed

lemma execute_single_action_Inr:
  assumes "execute_single_action E step idx w = (Inr r, w1)"
  shows "is_dict step \<and> index r = idx \<and> engine_status r"
proof (cases step)
  case (PDict kvs)
  with assms execute_single_action_total [of E kvs idx w] show ?thesis
    by (auto simp: engine_status_def)
qed (use assms in \<open>simp_all add: execute_single_action_def\<close>)

lemma group_loop_Cons:
  "group_loop E cg base i (step # rest) w =
     (case execute_single_action E step (base + i) w of
        (Inl e, w1) \<Rightarrow> (Inl e, w1)
      | (Inr r, w1) \<Rightarrow>
          (case (if status r = ''failed''
                 then (case py_get step ''continueOnError'' cg of
                         Inl e \<Rightarrow> Inl e | Inr v \<Rightarrow> Inr (\<not> truthy v))
                 else Inr False) of
             Inl e \<Rightarrow> (Inl e, w1)
           | Inr True \<Rightarrow>
               (case mark_skipped ''Skipped due to previous failure'' (base + i + 1) rest of
                  Inl e \<Rightarrow> (Inl e, w1)
                | Inr sk \<Rightarrow> (Inr (r # sk), w1))
           | Inr False \<Rightarrow>
               (case group_loop E cg base (i + 1) rest (pause E w1) of
                  (Inl e, w2) \<Rightarrow> (Inl e, w2)
                | (Inr rs, w2) \<Rightarrow> (Inr (r # rs), w2))))"
  by (auto simp: bindE_apply split: prod.splits sum.splits)

declare group_loop.simps(2) [simp del]

lemma group_loop_returned:
  "group_loop E cg base i steps w = (Inr rs, w') \<Longrightarrow>
     length rs = length steps \<and> contiguous_from (base + i) rs \<and> (\<forall>r\<in>set rs. engine_status r)"
proof (induction steps arbitrary: i w rs)
  case Nil
  then show ?case by simp
next
  case (Cons step rest)
  from Cons.prems obtain r w1 where
    ex: "execute_single_action E step (base + i) w = (Inr r, w1)"
    by (auto simp: group_loop_Cons split: prod.splits sum.splits)
  note r = execute_single_action_Inr [OF ex]
  from Cons.prems ex consider
    (stop) sk where "mark_skipped ''Skipped due to previous failure'' (base + i + 1) rest = Inr sk"
      "rs = r # sk"
    | (go) rs2 where "group_loop E cg base (i + 1) rest (pause E w1) = (Inr rs2, w')" "rs = r # rs2"
    by (auto simp: group_loop_Cons split: prod.splits sum.splits if_splits bool.splits)
  then show ?case
  proof cases
    case stop
    with mark_skipped_returned [OF stop(1)] r show ?thesis
      by (auto simp: engine_status_def)
  next
    case go
    with Cons.IH [OF go(1)] r show ?thesis
      by (auto simp: algebra_simps)
  qed
qed

lemma group_loop_total:
  "\<forall>s\<in>set steps. is_dict s \<Longrightarrow> \<exists>rs w'. group_loop E cg base i steps w = (Inr rs, w')"
proof (induction steps arbitrary: i w)
  case Nil
  then show ?case by simp
next
  case (Cons step rest)
  then obtain kvs where kvs: "step = PDict kvs" by (auto simp: is_dict_iff)
  obtain r w1 where ex: "execute_single_action E step (base + i) w = (Inr r, w1)"
    using execute_single_action_total [of E kvs "base + i" w] kvs by blast
  from Cons.prems obtain sk where
    sk: "mark_skipped ''Skipped due to previous failure'' (base + i + 1) rest = Inr sk"
    using mark_skipped_total [of rest] by fastforce
  from Cons obtain rs2 w2 where
    go: "group_loop E cg base (i + 1) rest (pause E w1) = (Inr rs2, w2)"
    by fastforce
  from ex sk go kvs show ?case
    by (cases "truthy (dict_get kvs ''continueOnError'' cg)") (simp_all add: group_loop_Cons)
qed

lemma group_loop_stop:
  assumes "group_loop E cg base i steps w = (Inr rs, w')"
    and "k < length steps"
    and "status (rs ! k) = ''failed''"
    and "py_get (steps ! k) ''continueOnError'' cg = Inr v"
    and "\<not> truthy v"
  shows "(\<forall>j. k < j \<and> j < length steps \<longrightarrow> propagated_skip (base + i + int j) (rs ! j)) \<and>
         (\<exists>wi. execute_single_action E (steps ! k) (base + i + int k) wi = (Inr (rs ! k), w'))"
  using assms
proof (induction steps arbitrary: i w rs k)
  case Nil
  then show ?case by simp
next
  case (Cons step rest)
  from Cons.prems(1) obtain r w1 where
    ex: "execute_single_action E step (base + i) w = (Inr r, w1)"
    by (auto simp: group_loop_Cons split: prod.splits sum.splits)
  from Cons.prems(1) ex consider
    (stop) sk where "mark_skipped ''Skipped due to previous failure'' (base + i + 1) rest = Inr sk"
      "rs = r # sk" "w' = w1"
    | (go) rs2 where "group_loop E cg base (i + 1) rest (pause E w1) = (Inr rs2, w')" "rs = r # rs2"
      "status r = ''failed'' \<longrightarrow> (\<exists>u. py_get step ''continueOnError'' cg = Inr u \<and> truthy u)"
    by (auto simp: group_loop_Cons split: prod.splits sum.splits if_splits bool.splits)
  then show ?case
  proof cases
    case stop
    note sk = mark_skipped_returned [OF stop(1)]
    show ?thesis
    proof (cases k)
      case 0
      have "\<And>j. 0 < j \<Longrightarrow> j < length (step # rest) \<Longrightarrow>
              propagated_skip (base + i + int j) (rs ! j)"
      proof -
        fix j assume j: "0 < j" "j < length (step # rest)"
        then obtain j' where j': "j = Suc j'" by (cases j) auto
        with j sk have "j' < length sk" by simp
        with sk have "sk ! j' \<in> set sk" "index (sk ! j') = base + i + 1 + int j'"
          by (simp_all add: contiguous_from_nth)
        with sk j' stop(2) show "propagated_skip (base + i + int j) (rs ! j)"
          by (auto simp: propagated_skip_def)
      qed
      with 0 ex stop show ?thesis by auto
    next
      case (Suc k')
      with Cons.prems(2) sk have "sk ! k' \<in> set sk" by simp
      with sk have "status (sk ! k') = ''skipped''" by blast
      with Suc stop(2) Cons.prems(3) show ?thesis by simp
    qed
  next
    case go
    show ?thesis
    proof (cases k)
      case 0
      with go Cons.prems show ?thesis by auto
    next
      case (Suc k')
      with Cons.prems go have
        "(\<forall>j. k' < j \<and> j < length rest \<longrightarrow> propagated_skip (base + (i + 1) + int j) (rs2 ! j)) \<and>
         (\<exists>wi. execute_single_action E (rest ! k') (base + (i + 1) + int k') wi = (Inr (rs2 ! k'), w'))"
        by (intro Cons.IH [of "i + 1" "pause E w1" rs2 k']) simp_all
      then have a: "\<And>j. k' < j \<Longrightarrow> j < length rest \<Longrightarrow>
                      propagated_skip (base + (i + 1) + int j) (rs2 ! j)"
        and b: "\<exists>wi. execute_single_action E (rest ! k') (base + (i + 1) + int k') wi
                  = (Inr (rs2 ! k'), w')"
        by blast+
      have "\<And>j. k < j \<Longrightarrow> j < length (step # rest) \<Longrightarrow>
              propagated_skip (base + i + int j) (rs ! j)"
      proof -
        fix j assume j: "k < j" "j < length (step # rest)"
        then obtain j' where j': "j = Suc j'" by (cases j) auto
        with j Suc have "k' < j'" "j' < length rest" by simp_all
        from a [OF this] j' go(2) show "propagated_skip (base + i + int j) (rs ! j)"
          by (simp add: algebra_simps)
      qed
      moreover from b Suc go(2) have
        "\<exists>wi. execute_single_action E ((step # rest) ! k) (base + i + int k) wi = (Inr (rs ! k), w')"
        by (simp add: algebra_simps)
      ultimately show ?thesis by blast
    qed
  qed
qed

lemma group_loop_stop_take:
  assumes "group_loop E cg base i steps w = (Inr rs, w')"
    and "k < length steps"
    and "status (rs ! k) = ''failed''"
    and "py_get (steps ! k) ''continueOnError'' cg = Inr v"
    and "\<not> truthy v"
  shows "group_loop E cg base i (take (Suc k) steps) w = (Inr (take (Suc k) rs), w')"
  using assms
proof (induction steps arbitrary: i w rs k)
  case Nil
  then show ?case by simp
next
  case (Cons step rest)
  from Cons.prems(1) obtain r w1 where
    ex: "execute_single_action E step (base + i) w = (Inr r, w1)"
    by (auto simp: group_loop_Cons split: prod.splits sum.splits)
  from Cons.prems(1) ex consider
    (stop) sk where "mark_skipped ''Skipped due to previous failure'' (base + i + 1) rest = Inr sk"
      "rs = r # sk" "w' = w1"
      "status r = ''failed''" "\<exists>u. py_get step ''continueOnError'' cg = Inr u \<and> \<not> truthy u"
    | (go) rs2 where "group_loop E cg base (i + 1) rest (pause E w1) = (Inr rs2, w')" "rs = r # rs2"
      "status r = ''failed'' \<longrightarrow> (\<exists>u. py_get step ''continueOnError'' cg = Inr u \<and> truthy u)"
    by (auto simp: group_loop_Cons split: prod.splits sum.splits if_splits bool.splits)
  then show ?case
  proof cases
    case stop
    note sk = mark_skipped_returned [OF stop(1)]
    show ?thesis
    proof (cases k)
      case 0
      with ex stop show ?thesis
        by (auto simp: group_loop_Cons)
    next
      case (Suc k')
      with Cons.prems(2) sk have "sk ! k' \<in> set sk" by simp
      with sk have "status (sk ! k') = ''skipped''" by blast
      with Suc stop(2) Cons.prems(3) show ?thesis by simp
    qed
  next
    case go
    show ?thesis
    proof (cases k)
      case 0
      with go Cons.prems show ?thesis by auto
    next
      case (Suc k')
      with Cons.prems go have
        "group_loop E cg base (i + 1) (take (Suc k') rest) (pause E w1) = (Inr (take (Suc k') rs2), w')"
        by (intro Cons.IH [of "i + 1" "pause E w1" rs2 k']) simp_all
      with Suc ex go show ?thesis
        by (auto simp: group_loop_Cons)
    qed
  qed
qed

lemma execute_action_group_skip:
  assumes "truthy (dict_get g ''condition'' PNone)"
    and "evaluate_condition E (dict_get g ''condition'' PNone) w = (Inr False, w1)"
  shows "execute_action_group E (PDict g) base w =
           (case py_iter (dict_get g ''steps'' (PList [])) of
              Inl e \<Rightarrow> (Inl e, w1)
            | Inr items \<Rightarrow>
                (case mark_skipped ''Group condition not met'' base items of
                   Inl e \<Rightarrow> (Inl e, w1)
                 | Inr rs \<Rightarrow> (Inr (rs, int (length items)), w1)))"
  using assms
  by (simp add: execute_action_group_def bindE_apply split: sum.splits)

lemma execute_action_group_run:
  assumes "(\<not> truthy (dict_get g ''condition'' PNone) \<and> w0 = w) \<or>
           evaluate_condition E (dict_get g ''condition'' PNone) w = (Inr True, w0)"
  shows "execute_action_group E (PDict g) base w =
           (case py_iter (dict_get g ''steps'' (PList [])) of
              Inl e \<Rightarrow> (Inl e, w0)
            | Inr items \<Rightarrow>
                (case group_loop E (dict_get g ''continueOnError'' (PBool False)) base 0 items w0 of
                   (Inl e, w2) \<Rightarrow> (Inl e, w2)
                 | (Inr rs, w2) \<Rightarrow> (Inr (rs, int (length items)), w2)))"
proof (cases "truthy (dict_get g ''condition'' PNone)")
  case True
  with assms show ?thesis
    by (simp add: execute_action_group_def bindE_apply split: sum.splits prod.splits)
next
  case False
  have "w0 = w"
  proof (rule disjE [OF assms])
    assume "evaluate_condition E (dict_get g ''condition'' PNone) w = (Inr True, w0)"
    with False show ?thesis by (simp add: evaluate_condition_def)
  qed simp
  with False show ?thesis
    by (simp add: execute_action_group_def bindE_apply split: sum.splits prod.splits)
qed

lemma execute_action_group_returned:
  assumes "execute_action_group E g base w = (Inr (rs, n), w')"
  shows "n = int (length rs) \<and> contiguous_from base rs \<and> (\<forall>r\<in>set rs. engine_status r) \<and>
         (\<exists>kvs items. g = PDict kvs \<and> py_iter (dict_get kvs ''steps'' (PList [])) = Inr items \<and>
            length items = length rs)"
proof (cases g)
  case (PDict kvs)
  let ?gc = "dict_get kvs ''condition'' PNone"
  obtain res w0 where ev: "evaluate_condition E ?gc w = (res, w0)" by (cases "evaluate_condition E ?gc w")
  show ?thesis
  proof (cases "truthy ?gc \<and> res = Inr False")
    case True
    with ev have "execute_action_group E (PDict kvs) base w =
           (case py_iter (dict_get kvs ''steps'' (PList [])) of
              Inl e \<Rightarrow> (Inl e, w0)
            | Inr items \<Rightarrow>
                (case mark_skipped ''Group condition not met'' base items of
                   Inl e \<Rightarrow> (Inl e, w0)
                 | Inr rs \<Rightarrow> (Inr (rs, int (length items)), w0)))"
      by (simp add: execute_action_group_skip)
    with assms PDict obtain items where
      "py_iter (dict_get kvs ''steps'' (PList [])) = Inr items"
      "mark_skipped ''Group condition not met'' base items = Inr rs" "n = int (length items)"
      by (auto split: sum.splits)
    with mark_skipped_returned [OF this(2)] PDict show ?thesis
      by (auto simp: engine_status_def)
  next
    case False
    with assms PDict ev have run: "(\<not> truthy ?gc \<and> w = w) \<or> evaluate_condition E ?gc w = (Inr True, w0)"
      by (auto simp: execute_action_group_def bindE_apply split: sum.splits prod.splits if_splits)
    then have "\<exists>w1. (\<not> truthy ?gc \<and> w1 = w) \<or> evaluate_condition E ?gc w = (Inr True, w1)"
      by blast
    then obtain w1 where "(\<not> truthy ?gc \<and> w1 = w) \<or> evaluate_condition E ?gc w = (Inr True, w1)"
      by blast
    note eq = execute_action_group_run [OF this, of base]
    with assms PDict obtain items where
      "py_iter (dict_get kvs ''steps'' (PList [])) = Inr items"
      "group_loop E (dict_get kvs ''continueOnError'' (PBool False)) base 0 items w1 = (Inr rs, w')"
      "n = int (length items)"
      by (auto split: sum.splits prod.splits)
    with group_loop_returned [OF this(2)] PDict show ?thesis
      by auto
  qed
qed (use assms in \<open>simp_all add: execute_action_group_def\<close>)

lemmas demo_eval =
  demo_format_def execute_actions_def execute_action_group_def execute_single_action_def attempt_action_def
  failed_result_def dispatch_action_def apply_wait_after_def evaluate_condition_def
  element_exists_def element_visible_def get_element_def text_matches_body_def custom_body_def
  by_of_def startswith_def dict_get_def bindE_apply catchE_apply Let_def demo_env_def
  new_results_def add_result_def group_loop.simps

lemma demo_ifExists:
  "evaluate_condition demo_env (PDict [(''ifExists'', PStr ''#modal'')]) w
     = (Inr False, w @ [Driver ''find_elements''])"
  by (simp add: demo_eval)

lemma demo_ifNotExists:
  "evaluate_condition demo_env (PDict [(''ifNotExists'', PStr ''.modal'')]) w
     = (Inr True, w @ [Driver ''find_elements''])"
  by (simp add: demo_eval)

text \<open>
  C6. A group (a dict whose steps are a list of dicts) whose condition is present and
  evaluates to false returns one result per declared step, with indices counted up
  from \<open>base\<close>, status skipped and duration 0, and the count \<open>len(steps)\<close>. The
  world it leaves is the one the evaluation of the group condition left: no step
  condition is evaluated, no executor runs and the driver is not touched again.
\<close>

theorem group_condition_false_skips_all:
  assumes "truthy (dict_get g ''condition'' PNone)"
    and "evaluate_condition E (dict_get g ''condition'' PNone) w = (Inr False, w1)"
    and "dict_get g ''steps'' (PList []) = PList steps"
    and "\<forall>s\<in>set steps. is_dict s"
  shows "\<exists>rs. execute_action_group E (PDict g) base w = (Inr (rs, int (length steps)), w1) \<and>
           length rs = length steps \<and>
           (\<forall>i<length steps.
              index (rs ! i) = base + int i \<and> status (rs ! i) = ''skipped'' \<and>
              duration (rs ! i) = 0 \<and> message (rs ! i) = ''Group condition not met'' \<and>
              error (rs ! i) = None)"
proof -
  from assms(4) obtain rs where rs: "mark_skipped ''Group condition not met'' base steps = Inr rs"
    using mark_skipped_total by blast
  note sk = mark_skipped_returned [OF rs]
  from rs assms(3) have "execute_action_group E (PDict g) base w = (Inr (rs, int (length steps)), w1)"
    by (simp add: execute_action_group_skip [OF assms(1,2)])
  moreover have "\<forall>i<length steps.
              index (rs ! i) = base + int i \<and> status (rs ! i) = ''skipped'' \<and>
              duration (rs ! i) = 0 \<and> message (rs ! i) = ''Group condition not met'' \<and>
              error (rs ! i) = None"
  proof (intro allI impI)
    fix i assume "i < length steps"
    with sk have "rs ! i \<in> set rs" "index (rs ! i) = base + int i"
      by (simp_all add: contiguous_from_nth)
    with sk show "index (rs ! i) = base + int i \<and> status (rs ! i) = ''skipped'' \<and>
              duration (rs ! i) = 0 \<and> message (rs ! i) = ''Group condition not met'' \<and>
              error (rs ! i) = None"
      by blast
  qed
  ultimately show ?thesis using sk by blast
qed

theorem group_condition_false_skips_all_witness:
  "\<exists>rs. execute_action_group demo_env
          (PDict [(''condition'', PDict [(''ifExists'', PStr ''#modal'')]),
                  (''steps'', PList [PDict [(''type'', PStr ''click''), (''selector'', PStr ''#ok'')],
                                     PDict [(''type'', PStr ''type'')]])]) 4 []
        = (Inr (rs, 2), [Driver ''find_elements'']) \<and>
      length rs = 2 \<and>
      index (rs ! 0) = 4 \<and> status (rs ! 0) = ''skipped'' \<and> duration (rs ! 0) = 0 \<and>
      index (rs ! 1) = 5 \<and> status (rs ! 1) = ''skipped'' \<and> duration (rs ! 1) = 0"
proof -
  let ?steps = "[PDict [(''type'', PStr ''click''), (''selector'', PStr ''#ok'')],
                 PDict [(''type'', PStr ''type'')]]"
  let ?g = "[(''condition'', PDict [(''ifExists'', PStr ''#modal'')]), (''steps'', PList ?steps)]"
  have h1: "truthy (dict_get ?g ''condition'' PNone)"
    by (simp add: dict_get_def)
  have h2: "evaluate_condition demo_env (dict_get ?g ''condition'' PNone) []
              = (Inr False, [Driver ''find_elements''])"
    by (simp add: dict_get_def demo_ifExists)
  have h3: "dict_get ?g ''steps'' (PList []) = PList ?steps"
    by (simp add: dict_get_def)
  have h4: "\<forall>s\<in>set ?steps. is_dict s"
    by simp
  from group_condition_false_skips_all [OF h1 h2 h3 h4, of 4] obtain rs where
    a: "execute_action_group demo_env (PDict ?g) 4 [] = (Inr (rs, 2), [Driver ''find_elements''])"
    and b: "length rs = 2"
    and c: "\<forall>i<2. index (rs ! i) = 4 + int i \<and> status (rs ! i) = ''skipped'' \<and>
              duration (rs ! i) = 0 \<and> message (rs ! i) = ''Group condition not met'' \<and>
              error (rs ! i) = None"
    by auto
  from c have "index (rs ! 0) = 4 \<and> status (rs ! 0) = ''skipped'' \<and> duration (rs ! 0) = 0"
    by simp
  moreover from c have "1 < (2::nat) \<longrightarrow> index (rs ! 1) = 4 + int 1 \<and> status (rs ! 1) = ''skipped'' \<and> duration (rs ! 1) = 0"
    by blast
  ultimately show ?thesis using a b by auto
qed

text \<open>
  C1. A group (a dict whose steps are a list of dicts) whose condition is absent or
  evaluates to true returns exactly \<open>len(steps)\<close> results and the count
  \<open>len(steps)\<close>. If the result at position \<open>i\<close> is failed and the effective
  continue-on-error of step \<open>i\<close> is false, then every later position \<open>j\<close> holds a
  skipped result with index \<open>base + j\<close>, duration 0 and the message
  \<open>Skipped due to previous failure\<close>; the world the group leaves is the one the
  dispatcher left after step \<open>i\<close>; and the same group cut after step \<open>i\<close> leaves
  the same world and the same first \<open>i + 1\<close> results, so the later positions
  contribute no condition evaluation, no executor call and no pause.
\<close>

theorem group_failure_skips_remaining:
  assumes "\<not> truthy (dict_get g ''condition'' PNone) \<or>
           (\<exists>w0. evaluate_condition E (dict_get g ''condition'' PNone) w = (Inr True, w0))"
    and "dict_get g ''steps'' (PList []) = PList steps"
    and "\<forall>s\<in>set steps. is_dict s"
  shows "\<exists>rs w'. execute_action_group E (PDict g) base w = (Inr (rs, int (length steps)), w') \<and>
           length rs = length steps \<and>
           (\<forall>i. i < length steps \<and> status (rs ! i) = ''failed'' \<and>
                 \<not> effective_continue_on_error g (steps ! i) \<longrightarrow>
              (\<forall>j. i < j \<and> j < length steps \<longrightarrow> propagated_skip (base + int j) (rs ! j)) \<and>
              (\<exists>wi. execute_single_action E (steps ! i) (base + int i) wi = (Inr (rs ! i), w')) \<and>
              (\<forall>g'. dict_get g' ''condition'' PNone = dict_get g ''condition'' PNone \<and>
                     dict_get g' ''continueOnError'' (PBool False)
                       = dict_get g ''continueOnError'' (PBool False) \<and>
                     dict_get g' ''steps'' (PList []) = PList (take (Suc i) steps) \<longrightarrow>
                 execute_action_group E (PDict g') base w
                   = (Inr (take (Suc i) rs, int (Suc i)), w')))"
proof -
  let ?cg = "dict_get g ''continueOnError'' (PBool False)"
  from assms(1) obtain w0 where
    w0: "(\<not> truthy (dict_get g ''condition'' PNone) \<and> w0 = w) \<or>
         evaluate_condition E (dict_get g ''condition'' PNone) w = (Inr True, w0)"
    by blast
  obtain rs w' where loop: "group_loop E ?cg base 0 steps w0 = (Inr rs, w')"
    using group_loop_total [OF assms(3), of E ?cg base 0 w0] by blast
  with assms(2) have run: "execute_action_group E (PDict g) base w = (Inr (rs, int (length steps)), w')"
    by (simp add: execute_action_group_run [OF w0])
  from group_loop_returned [OF loop] have len: "length rs = length steps" by simp
  have "\<forall>i. i < length steps \<and> status (rs ! i) = ''failed'' \<and>
                 \<not> effective_continue_on_error g (steps ! i) \<longrightarrow>
              (\<forall>j. i < j \<and> j < length steps \<longrightarrow> propagated_skip (base + int j) (rs ! j)) \<and>
              (\<exists>wi. execute_single_action E (steps ! i) (base + int i) wi = (Inr (rs ! i), w')) \<and>
              (\<forall>g'. dict_get g' ''condition'' PNone = dict_get g ''condition'' PNone \<and>
                     dict_get g' ''continueOnError'' (PBool False)
                       = dict_get g ''continueOnError'' (PBool False) \<and>
                     dict_get g' ''steps'' (PList []) = PList (take (Suc i) steps) \<longrightarrow>
                 execute_action_group E (PDict g') base w
                   = (Inr (take (Suc i) rs, int (Suc i)), w'))"
  proof (intro allI impI)
    fix i
    assume h: "i < length steps \<and> status (rs ! i) = ''failed'' \<and>
                 \<not> effective_continue_on_error g (steps ! i)"
    then have "steps ! i \<in> set steps" by simp
    with assms(3) have "is_dict (steps ! i)" by blast
    then obtain kvs where kvs: "steps ! i = PDict kvs"
      by (auto simp: is_dict_iff)
    with h have v: "py_get (steps ! i) ''continueOnError'' ?cg = Inr (dict_get kvs ''continueOnError'' ?cg)"
      "\<not> truthy (dict_get kvs ''continueOnError'' ?cg)"
      by (simp_all add: effective_continue_on_error_def)
    from h have i: "i < length steps" "status (rs ! i) = ''failed''" by simp_all
    from group_loop_stop [OF loop i v] have
      a: "\<forall>j. i < j \<and> j < length steps \<longrightarrow> propagated_skip (base + int j) (rs ! j)"
      and b: "\<exists>wi. execute_single_action E (steps ! i) (base + int i) wi = (Inr (rs ! i), w')"
      by simp_all
    have c: "\<forall>g'. dict_get g' ''condition'' PNone = dict_get g ''condition'' PNone \<and>
                     dict_get g' ''continueOnError'' (PBool False)
                       = dict_get g ''continueOnError'' (PBool False) \<and>
                     dict_get g' ''steps'' (PList []) = PList (take (Suc i) steps) \<longrightarrow>
                 execute_action_group E (PDict g') base w
                   = (Inr (take (Suc i) rs, int (Suc i)), w')"
    proof (intro allI impI)
      fix g'
      assume g': "dict_get g' ''condition'' PNone = dict_get g ''condition'' PNone \<and>
                     dict_get g' ''continueOnError'' (PBool False)
                       = dict_get g ''continueOnError'' (PBool False) \<and>
                     dict_get g' ''steps'' (PList []) = PList (take (Suc i) steps)"
      with w0 have w0': "(\<not> truthy (dict_get g' ''condition'' PNone) \<and> w0 = w) \<or>
         evaluate_condition E (dict_get g' ''condition'' PNone) w = (Inr True, w0)"
        by simp
      from i have "min (length steps) (Suc i) = Suc i" by simp
      with g' group_loop_stop_take [OF loop i v] show
        "execute_action_group E (PDict g') base w = (Inr (take (Suc i) rs, int (Suc i)), w')"
        by (simp add: execute_action_group_run [OF w0'])
    qed
    from a b c show "(\<forall>j. i < j \<and> j < length steps \<longrightarrow> propagated_skip (base + int j) (rs ! j)) \<and>
              (\<exists>wi. execute_single_action E (steps ! i) (base + int i) wi = (Inr (rs ! i), w')) \<and>
              (\<forall>g'. dict_get g' ''condition'' PNone = dict_get g ''condition'' PNone \<and>
                     dict_get g' ''continueOnError'' (PBool False)
                       = dict_get g ''continueOnError'' (PBool False) \<and>
                     dict_get g' ''steps'' (PList []) = PList (take (Suc i) steps) \<longrightarrow>
                 execute_action_group E (PDict g') base w
                   = (Inr (take (Suc i) rs, int (Suc i)), w'))"
      by blast
  qed
  with run len show ?thesis by blast
qed

theorem group_failure_skips_remaining_witness:
  "\<exists>rs w'. execute_action_group demo_env
          (PDict [(''condition'', PDict [(''ifNotExists'', PStr ''.modal'')]),
                  (''steps'', PList [PDict [(''type'', PStr ''click''), (''selector'', PStr ''#missing'')],
                                     PDict [(''type'', PStr ''type'')]])]) 0 []
        = (Inr (rs, 2), w') \<and>
      length rs = 2 \<and> status (rs ! 0) = ''failed'' \<and> propagated_skip 1 (rs ! 1) \<and>
      w' = [Driver ''find_elements'', Ran ''click'', Logged ''Action 0 (click) failed: error''] \<and>
      (\<exists>wi. execute_single_action demo_env
              (PDict [(''type'', PStr ''click''), (''selector'', PStr ''#missing'')]) 0 wi
            = (Inr (rs ! 0), w')) \<and>
      execute_action_group demo_env
          (PDict [(''condition'', PDict [(''ifNotExists'', PStr ''.modal'')]),
                  (''steps'', PList [PDict [(''type'', PStr ''click''), (''selector'', PStr ''#missing'')]])])
          0 []
        = (Inr (take 1 rs, 1), w')"
proof -
  let ?s0 = "PDict [(''type'', PStr ''click''), (''selector'', PStr ''#missing'')]"
  let ?steps = "[?s0, PDict [(''type'', PStr ''type'')]]"
  let ?g = "[(''condition'', PDict [(''ifNotExists'', PStr ''.modal'')]), (''steps'', PList ?steps)]"
  let ?g' = "[(''condition'', PDict [(''ifNotExists'', PStr ''.modal'')]), (''steps'', PList [?s0])]"
  let ?w = "[Driver ''find_elements'', Ran ''click'', Logged ''Action 0 (click) failed: error'']"
  have h1: "\<not> truthy (dict_get ?g ''condition'' PNone) \<or>
           (\<exists>w0. evaluate_condition demo_env (dict_get ?g ''condition'' PNone) [] = (Inr True, w0))"
    by (simp add: dict_get_def demo_ifNotExists)
  have h2: "dict_get ?g ''steps'' (PList []) = PList ?steps"
    by (simp add: dict_get_def)
  have h3: "\<forall>s\<in>set ?steps. is_dict s"
    by simp
  have run: "\<exists>r1. execute_action_group demo_env (PDict ?g) 0 [] =
          (Inr ([\<lparr>index = 0, type = PStr ''click'', status = ''failed'', duration = 1,
                  message = ''Action failed: error'', selector = PStr ''#missing'',
                  error = Some ''error''\<rparr>, r1], 2), ?w)"
    by (simp add: demo_eval)
  have coe: "\<not> effective_continue_on_error ?g (?steps ! 0)"
    by (simp add: effective_continue_on_error_def dict_get_def)
  have cut: "dict_get ?g' ''condition'' PNone = dict_get ?g ''condition'' PNone \<and>
             dict_get ?g' ''continueOnError'' (PBool False)
               = dict_get ?g ''continueOnError'' (PBool False) \<and>
             dict_get ?g' ''steps'' (PList []) = PList (take (Suc 0) ?steps)"
    by (simp add: dict_get_def)
  from group_failure_skips_remaining [OF h1 h2 h3, of 0] obtain rs w' where
    a: "execute_action_group demo_env (PDict ?g) 0 [] = (Inr (rs, 2), w')"
    and b: "length rs = 2"
    and c: "\<forall>i. i < length ?steps \<and> status (rs ! i) = ''failed'' \<and>
                 \<not> effective_continue_on_error ?g (?steps ! i) \<longrightarrow>
              (\<forall>j. i < j \<and> j < length ?steps \<longrightarrow> propagated_skip (0 + int j) (rs ! j)) \<and>
              (\<exists>wi. execute_single_action demo_env (?steps ! i) (0 + int i) wi = (Inr (rs ! i), w')) \<and>
              (\<forall>g'. dict_get g' ''condition'' PNone = dict_get ?g ''condition'' PNone \<and>
                     dict_get g' ''continueOnError'' (PBool False)
                       = dict_get ?g ''continueOnError'' (PBool False) \<and>
                     dict_get g' ''steps'' (PList []) = PList (take (Suc i) ?steps) \<longrightarrow>
                 execute_action_group demo_env (PDict g') 0 []
                   = (Inr (take (Suc i) rs, int (Suc i)), w'))"
    by auto
  from a run have w': "w' = ?w" and f: "status (rs ! 0) = ''failed''"
    by auto
  with c [rule_format, of 0] coe have
    j: "\<forall>j. 0 < j \<and> j < length ?steps \<longrightarrow> propagated_skip (0 + int j) (rs ! j)"
    and d: "\<exists>wi. execute_single_action demo_env (?steps ! 0) (0 + int 0) wi = (Inr (rs ! 0), w')"
    and e: "\<forall>g'. dict_get g' ''condition'' PNone = dict_get ?g ''condition'' PNone \<and>
                     dict_get g' ''continueOnError'' (PBool False)
                       = dict_get ?g ''continueOnError'' (PBool False) \<and>
                     dict_get g' ''steps'' (PList []) = PList (take (Suc 0) ?steps) \<longrightarrow>
                 execute_action_group demo_env (PDict g') 0 []
                   = (Inr (take (Suc 0) rs, int (Suc 0)), w')"
    by simp_all
  from j [rule_format, of 1] have p: "propagated_skip 1 (rs ! 1)"
    by simp
  from d have d': "\<exists>wi. execute_single_action demo_env ?s0 0 wi = (Inr (rs ! 0), w')"
    by simp
  from e [rule_format, of ?g', OF cut] have
    e': "execute_action_group demo_env (PDict ?g') 0 [] = (Inr (take 1 rs, 1), w')"
    by simp
  from a b f p w' d' e' show ?thesis
    by - (rule exI [of _ rs], rule exI [of _ w'], simp)
qed

subsection \<open>The run coordinator\<close>

lemma actions_loop_Cons:
  "actions_loop E idx rep (a # rest) w =
     (case py_contains ''steps'' a of
        Inl e \<Rightarrow> (Inl e, w)
      | Inr True \<Rightarrow>
          (case execute_action_group E a idx w of
             (Inl e, w1) \<Rightarrow> (Inl e, w1)
           | (Inr gr, w1) \<Rightarrow>
               actions_loop E (idx + snd gr) (foldl add_result rep (fst gr)) rest w1)
      | Inr False \<Rightarrow>
          (case execute_single_action E a idx w of
             (Inl e, w1) \<Rightarrow> (Inl e, w1)
           | (Inr r, w1) \<Rightarrow>
               (case (if status r = ''failed''
                      then (case py_get a ''continueOnError'' (PBool False) of
                              Inl e \<Rightarrow> Inl e | Inr v \<Rightarrow> Inr (\<not> truthy v))
                      else Inr False) of
                  Inl e \<Rightarrow> (Inl e, w1)
                | Inr True \<Rightarrow> (Inr (add_result rep r), log_error E (stop_message E r) w1)
                | Inr False \<Rightarrow> actions_loop E (idx + 1) (add_result rep r) rest (pause E w1))))"
  by (auto simp: bindE_apply stop_message_def split: prod.splits sum.splits)

declare actions_loop.simps(2) [simp del]

lemmas demo_run = demo_eval actions_loop.simps

lemma actions_loop_single:
  assumes "py_contains ''steps'' a = Inr False"
    and "execute_single_action E a idx w = (Inr r, w1)"
  shows "actions_loop E idx rep (a # rest) w =
           (if status r = ''failed'' \<and> \<not> top_level_continue a
            then (Inr (add_result rep r), log_error E (stop_message E r) w1)
            else actions_loop E (idx + 1) (add_result rep r) rest (pause E w1))"
proof -
  from execute_single_action_Inr [OF assms(2)] obtain kvs where "a = PDict kvs"
    by (auto simp: is_dict_iff)
  with assms show ?thesis
    by (simp add: actions_loop_Cons top_level_continue_def)
qed

lemma actions_loop_group:
  assumes "py_contains ''steps'' g = Inr True"
    and "execute_action_group E g idx w = (Inr (rs, n), w1)"
  shows "actions_loop E idx rep (g # rest) w =
           actions_loop E (idx + n) (foldl add_result rep rs) rest w1"
  using assms by (simp add: actions_loop_Cons)

lemma actions_loop_cases:
  assumes "actions_loop E idx rep (a # rest) w = (Inr rep', w')"
  obtains (group) rs n w1 where "py_contains ''steps'' a = Inr True"
      "execute_action_group E a idx w = (Inr (rs, n), w1)"
      "actions_loop E (idx + n) (foldl add_result rep rs) rest w1 = (Inr rep', w')"
    | (stop) r w1 where "py_contains ''steps'' a = Inr False"
      "execute_single_action E a idx w = (Inr r, w1)"
      "status r = ''failed''" "\<not> top_level_continue a"
      "rep' = add_result rep r" "w' = log_error E (stop_message E r) w1"
    | (go) r w1 where "py_contains ''steps'' a = Inr False"
      "execute_single_action E a idx w = (Inr r, w1)"
      "\<not> (status r = ''failed'' \<and> \<not> top_level_continue a)"
      "actions_loop E (idx + 1) (add_result rep r) rest (pause E w1) = (Inr rep', w')"
proof -
  from assms obtain b where b: "py_contains ''steps'' a = Inr b"
    by (auto simp: actions_loop_Cons split: sum.splits)
  show ?thesis
  proof (cases b)
    case True
    with assms b obtain rs n w1 where "execute_action_group E a idx w = (Inr (rs, n), w1)"
      by (auto simp: actions_loop_Cons split: sum.splits prod.splits)
    with assms b True show ?thesis
      by (auto intro!: group simp: actions_loop_group)
  next
    case False
    with assms b obtain r w1 where ex: "execute_single_action E a idx w = (Inr r, w1)"
      by (auto simp: actions_loop_Cons split: sum.splits prod.splits)
    from b False have s: "py_contains ''steps'' a = Inr False" by simp
    show ?thesis
    proof (cases "status r = ''failed'' \<and> \<not> top_level_continue a")
      case True
      with assms actions_loop_single [OF s ex, of rep rest] show ?thesis
        by (auto intro!: stop [OF s ex])
    next
      case False
      with assms actions_loop_single [OF s ex, of rep rest] show ?thesis
        by (auto intro!: go [OF s ex])
    qed
  qed
qed

lemma actions_loop_stop_prefix:
  assumes "py_contains ''steps'' a = Inr False" and "\<not> top_level_continue a"
  shows "actions_loop E idx rep0 (pre @ [a]) w = (Inr rep, w') \<Longrightarrow>
         details rep \<noteq> [] \<Longrightarrow> status (last (details rep)) = ''failed'' \<Longrightarrow>
         actions_loop E idx rep0 (pre @ a # post) w = (Inr rep, w')"
proof (induction pre arbitrary: idx rep0 w)
  case Nil
  from Nil(1) have "actions_loop E idx rep0 (a # []) w = (Inr rep, w')" by simp
  then show ?case
  proof (cases rule: actions_loop_cases)
    case (group rs n w1)
    with assms show ?thesis by simp
  next
    case (stop r w1)
    then show ?thesis by (simp add: actions_loop_single)
  next
    case (go r w1)
    then have "rep = add_result rep0 r" by simp
    with Nil(3) have "status r = ''failed''" by (simp add: details_add_result)
    with go(3) assms(2) show ?thesis by simp
  qed
next
  case (Cons b pre)
  from Cons.prems(1) have "actions_loop E idx rep0 (b # (pre @ [a])) w = (Inr rep, w')" by simp
  then show ?case
  proof (cases rule: actions_loop_cases)
    case (group rs n w1)
    from Cons.IH [OF group(3) Cons.prems(2,3)] group(1,2) show ?thesis
      by (simp add: actions_loop_group)
  next
    case (stop r w1)
    then show ?thesis by (simp add: actions_loop_single)
  next
    case (go r w1)
    from go(3) have "(status r = ''failed'' \<and> \<not> top_level_continue b) = False" by simp
    with Cons.IH [OF go(4) Cons.prems(2,3)] show ?thesis
      by (simp only: append_Cons actions_loop_single [OF go(1,2)] if_False)
  qed
qed

text \<open>
  C2. Let \<open>a\<close> be a single top-level action (no key \<open>steps\<close>) whose own
  \<open>continueOnError\<close> is false or absent. Wherever the loop reaches \<open>a\<close> and its
  dispatch returns a failed result, the run ends there: the report is the report so
  far plus that result, and the world is the one the dispatcher left plus the log
  line of the stop, whatever entries \<open>post\<close> follow. For whole runs: if the run over
  the entries up to and including \<open>a\<close> ends with a failed result, the run over the
  list with any further entries \<open>post\<close> appended returns the same report and leaves
  the same world, so no later entry is dispatched or recorded.
\<close>

theorem top_level_failure_stops_run:
  assumes "py_contains ''steps'' a = Inr False" and "\<not> top_level_continue a"
  shows "(\<forall>idx rep w r w1.
            execute_single_action E a idx w = (Inr r, w1) \<and> status r = ''failed'' \<longrightarrow>
            actions_loop E idx rep (a # post) w
              = (Inr (add_result rep r), log_error E (stop_message E r) w1)) \<and>
         (\<forall>pre w rep w'.
            execute_actions (pre @ [a]) E w = (Inr rep, w') \<and> details rep \<noteq> [] \<and>
            status (last (details rep)) = ''failed'' \<longrightarrow>
            execute_actions (pre @ a # post) E w = (Inr rep, w'))"
proof (intro conjI allI impI)
  fix idx rep w r w1
  assume "execute_single_action E a idx w = (Inr r, w1) \<and> status r = ''failed''"
  with assms show "actions_loop E idx rep (a # post) w
              = (Inr (add_result rep r), log_error E (stop_message E r) w1)"
    by (simp add: actions_loop_single)
next
  fix pre w rep w'
  assume "execute_actions (pre @ [a]) E w = (Inr rep, w') \<and> details rep \<noteq> [] \<and>
            status (last (details rep)) = ''failed''"
  then have "actions_loop E 0 new_results (pre @ [a]) w = (Inr rep, w')"
    and "details rep \<noteq> []" and "status (last (details rep)) = ''failed''"
    by (simp_all add: execute_actions_def)
  then show "execute_actions (pre @ a # post) E w = (Inr rep, w')"
    unfolding execute_actions_def by (rule actions_loop_stop_prefix [OF assms])
qed

lemma demo_click_then_scroll:
  "\<exists>rep. execute_actions
      [PDict [(''type'', PStr ''click''), (''selector'', PStr ''.btn'')],
       PDict [(''type'', PStr ''scroll'')]] demo_env [] =
      (Inr rep,
       [Ran ''click'', Paused, Logged ''Action 1 (scroll) failed: Unknown action type: scroll'',
        Logged ''Stopping action execution due to failure at index 1'']) \<and>
      map status (details rep) = [''success'', ''failed'']"
  by (simp add: demo_run)

theorem top_level_failure_stops_run_witness:
  "\<exists>rep. execute_actions
      [PDict [(''type'', PStr ''click''), (''selector'', PStr ''.btn'')],
       PDict [(''type'', PStr ''scroll'')],
       PDict [(''type'', PStr ''type''), (''selector'', PStr ''#field''), (''value'', PStr ''hi'')]]
      demo_env [] =
      (Inr rep,
       [Ran ''click'', Paused, Logged ''Action 1 (scroll) failed: Unknown action type: scroll'',
        Logged ''Stopping action execution due to failure at index 1'']) \<and>
      map status (details rep) = [''success'', ''failed''] \<and>
      (\<exists>r. actions_loop demo_env 7 new_results
         [PDict [(''type'', PStr ''scroll'')],
          PDict [(''type'', PStr ''type''), (''selector'', PStr ''#field''), (''value'', PStr ''hi'')]]
         [] =
         (Inr (add_result new_results r),
          [Logged ''Action 7 (scroll) failed: Unknown action type: scroll'',
           Logged ''Stopping action execution due to failure at index 7'']) \<and>
         index r = 7 \<and> status r = ''failed'')"
proof -
  let ?c = "PDict [(''type'', PStr ''click''), (''selector'', PStr ''.btn'')]"
  let ?a = "PDict [(''type'', PStr ''scroll'')]"
  let ?t = "PDict [(''type'', PStr ''type''), (''selector'', PStr ''#field''), (''value'', PStr ''hi'')]"
  let ?w = "[Ran ''click'', Paused, Logged ''Action 1 (scroll) failed: Unknown action type: scroll'',
        Logged ''Stopping action execution due to failure at index 1'']"
  have h1: "py_contains ''steps'' ?a = Inr False" by simp
  have h2: "\<not> top_level_continue ?a" by (simp add: top_level_continue_def dict_get_def)
  note t = top_level_failure_stops_run [OF h1 h2, of demo_env "[?t]"]
  from demo_click_then_scroll obtain rep where
    run: "execute_actions ([?c] @ [?a]) demo_env [] = (Inr rep, ?w)"
    and st: "map status (details rep) = [''success'', ''failed'']"
    by (elim exE conjE) simp
  from st have "details rep \<noteq> []" "status (last (details rep)) = ''failed''"
    by (auto simp: map_eq_Cons_conv)
  with t run have "execute_actions ([?c] @ ?a # [?t]) demo_env [] = (Inr rep, ?w)"
    by blast
  then have 1: "execute_actions [?c, ?a, ?t] demo_env [] = (Inr rep, ?w)" by simp
  have "\<exists>r. execute_single_action demo_env ?a 7 [] =
          (Inr r, [Logged ''Action 7 (scroll) failed: Unknown action type: scroll'']) \<and>
          index r = 7 \<and> status r = ''failed''"
    by (simp add: demo_eval)
  then obtain r where
    ex: "execute_single_action demo_env ?a 7 [] =
          (Inr r, [Logged ''Action 7 (scroll) failed: Unknown action type: scroll''])"
    and r: "index r = 7" "status r = ''failed''"
    by (elim exE conjE)
  from t ex r have "actions_loop demo_env 7 new_results (?a # [?t]) [] =
      (Inr (add_result new_results r),
       log_error demo_env (stop_message demo_env r)
         [Logged ''Action 7 (scroll) failed: Unknown action type: scroll''])"
    by blast
  moreover from r(1) have "log_error demo_env (stop_message demo_env r)
         [Logged ''Action 7 (scroll) failed: Unknown action type: scroll''] =
       [Logged ''Action 7 (scroll) failed: Unknown action type: scroll'',
        Logged ''Stopping action execution due to failure at index 7'']"
    by (simp add: stop_message_def demo_env_def demo_format_def)
  ultimately have 2: "actions_loop demo_env 7 new_results [?a, ?t] [] =
      (Inr (add_result new_results r),
       [Logged ''Action 7 (scroll) failed: Unknown action type: scroll'',
        Logged ''Stopping action execution due to failure at index 7''])"
    by simp
  from 1 st 2 r show ?thesis
    by - (rule exI [of _ rep], simp, rule exI [of _ r], simp)
qed

text \<open>
  C10. Wherever the loop reaches a group (an entry with the key \<open>steps\<close>) and the
  group executor returns, the run goes on with the next entry: the results of the
  group are folded into the report, the index advances by their number, and the rest
  of the list is processed from the world the group left. No failure inside the group
  and no \<open>continueOnError\<close> setting is looked at.
\<close>

theorem group_never_stops_run:
  assumes "py_contains ''steps'' g = Inr True"
    and "execute_action_group E g idx w = (Inr (rs, n), w1)"
  shows "n = int (length rs) \<and>
         actions_loop E idx rep (g # rest) w
           = actions_loop E (idx + int (length rs)) (foldl add_result rep rs) rest w1 \<and>
         (\<forall>rs0 n0 w0.
            execute_action_group E g 0 w = (Inr (rs0, n0), w0) \<longrightarrow>
            execute_actions (g # rest) E w
              = actions_loop E (int (length rs0)) (foldl add_result new_results rs0) rest w0)"
proof (intro conjI allI impI)
  from execute_action_group_returned [OF assms(2)] show n: "n = int (length rs)" by simp
  with assms show "actions_loop E idx rep (g # rest) w
           = actions_loop E (idx + int (length rs)) (foldl add_result rep rs) rest w1"
    by (simp add: actions_loop_group)
next
  fix rs0 n0 w0
  assume g0: "execute_action_group E g 0 w = (Inr (rs0, n0), w0)"
  from execute_action_group_returned [OF g0] have "n0 = int (length rs0)" by simp
  with g0 assms(1) show "execute_actions (g # rest) E w
              = actions_loop E (int (length rs0)) (foldl add_result new_results rs0) rest w0"
    by (simp add: actions_loop_group execute_actions_def)
qed

lemma demo_failing_group:
  "\<exists>rs. execute_action_group demo_env
      (PDict [(''steps'', PList [PDict [(''type'', PStr ''scroll'')],
                                 PDict [(''type'', PStr ''click'')]])]) 0 [] =
      (Inr (rs, 2), [Logged ''Action 0 (scroll) failed: Unknown action type: scroll'']) \<and>
      map status rs = [''failed'', ''skipped''] \<and> map index rs = [0, 1]"
  by (simp add: demo_eval)

theorem group_never_stops_run_witness:
  "\<exists>rep. execute_actions
      [PDict [(''steps'', PList [PDict [(''type'', PStr ''scroll'')],
                                 PDict [(''type'', PStr ''click'')]])],
       PDict [(''type'', PStr ''click''), (''selector'', PStr ''.btn'')]] demo_env [] =
      (Inr rep,
       [Logged ''Action 0 (scroll) failed: Unknown action type: scroll'', Ran ''click'', Paused]) \<and>
      map status (details rep) = [''failed'', ''skipped'', ''success''] \<and>
      map index (details rep) = [0, 1, 2]"
proof -
  let ?g = "PDict [(''steps'', PList [PDict [(''type'', PStr ''scroll'')],
                                     PDict [(''type'', PStr ''click'')]])]"
  let ?c = "PDict [(''type'', PStr ''click''), (''selector'', PStr ''.btn'')]"
  let ?w1 = "[Logged ''Action 0 (scroll) failed: Unknown action type: scroll'']"
  have h1: "py_contains ''steps'' ?g = Inr True" by simp
  from demo_failing_group obtain rs where
    g: "execute_action_group demo_env ?g 0 [] = (Inr (rs, 2), ?w1)"
    and st: "map status rs = [''failed'', ''skipped'']" and ix: "map index rs = [0, 1]"
    by (elim exE conjE)
  from st ix obtain r0 r1 where rs: "rs = [r0, r1]" "status r0 = ''failed''"
    "status r1 = ''skipped''" "index r0 = 0" "index r1 = 1"
    by (auto simp: map_eq_Cons_conv)
  from group_never_stops_run [OF h1 g, of new_results "[?c]"] g
  have "execute_actions [?g, ?c] demo_env []
          = actions_loop demo_env (int (length rs)) (foldl add_result new_results rs) [?c] ?w1"
    by blast
  with rs show ?thesis
    by (simp add: demo_run details_add_result)
qed

lemma actions_loop_contiguous:
  "actions_loop E idx rep acts w = (Inr rep', w') \<Longrightarrow>
   contiguous_from i0 (details rep) \<Longrightarrow> idx = i0 + int (length (details rep)) \<Longrightarrow>
   contiguous_from i0 (details rep')"
proof (induction acts arbitrary: idx rep w)
  case Nil
  then show ?case by simp
next
  case (Cons a rest)
  from Cons.prems(1) show ?case
  proof (cases rule: actions_loop_cases)
    case (group rs n w1)
    from execute_action_group_returned [OF group(2)] have
      rs: "n = int (length rs)" "contiguous_from idx rs" by simp_all
    with Cons.prems have "contiguous_from i0 (details (foldl add_result rep rs))"
      by (simp add: details_foldl_add_result contiguous_from_append)
    moreover from rs Cons.prems have
      "idx + n = i0 + int (length (details (foldl add_result rep rs)))"
      by (simp add: details_foldl_add_result)
    ultimately show ?thesis
      by (rule Cons.IH [OF group(3)])
  next
    case (stop r w1)
    from execute_single_action_Inr [OF stop(2)] have "index r = idx" by simp
    with stop Cons.prems show ?thesis
      by (simp add: details_add_result contiguous_from_append)
  next
    case (go r w1)
    from execute_single_action_Inr [OF go(2)] have "index r = idx" by simp
    with Cons.prems have "contiguous_from i0 (details (add_result rep r))"
      "idx + 1 = i0 + int (length (details (add_result rep r)))"
      by (simp_all add: details_add_result contiguous_from_append)
    then show ?thesis
      by (rule Cons.IH [OF go(4)])
  qed
qed

text \<open>
  C4. In the report of every run that returns, the indices of the results are
  \<open>0, 1, 2, ...\<close> in report order, with no gap and no repetition. Every group that
  returns yields results with indices \<open>base, base + 1, ...\<close> and the count
  \<open>len(steps)\<close>, which is also the number of its results, however many of its steps
  ran and however many were skipped.
\<close>

theorem indices_contiguous:
  "(execute_actions actions E w = (Inr rep, w') \<longrightarrow>
      map index (details rep) = map int [0..<length (details rep)] \<and>
      distinct (map index (details rep)) \<and> sorted_wrt (<) (map index (details rep))) \<and>
   (execute_action_group E g base w = (Inr (rs, n), w1) \<longrightarrow>
      map index rs = map (\<lambda>k. base + int k) [0..<length rs] \<and> n = int (length rs) \<and>
      (\<exists>kvs steps. g = PDict kvs \<and> py_iter (dict_get kvs ''steps'' (PList [])) = Inr steps \<and>
         n = int (length steps)))"
proof (intro conjI impI)
  assume "execute_actions actions E w = (Inr rep, w')"
  then have "contiguous_from 0 (details rep)"
    unfolding execute_actions_def
    by (rule actions_loop_contiguous) (simp_all add: new_results_def)
  then show m: "map index (details rep) = map int [0..<length (details rep)]"
    by (simp add: contiguous_from_map)
  show "distinct (map index (details rep))"
    unfolding m by (simp add: distinct_map)
  show "sorted_wrt (<) (map index (details rep))"
    unfolding m by (simp add: sorted_wrt_map)
next
  assume g: "execute_action_group E g base w = (Inr (rs, n), w1)"
  from execute_action_group_returned [OF g]
  show "map index rs = map (\<lambda>k. base + int k) [0..<length rs]"
    by (simp add: contiguous_from_map)
  from execute_action_group_returned [OF g] show "n = int (length rs)" by simp
  from execute_action_group_returned [OF g] obtain kvs items where
    "g = PDict kvs" "py_iter (dict_get kvs ''steps'' (PList [])) = Inr items"
    "length items = length rs" "n = int (length rs)"
    by blast
  then show "\<exists>kvs steps. g = PDict kvs \<and> py_iter (dict_get kvs ''steps'' (PList [])) = Inr steps \<and>
         n = int (length steps)"
    by simp
qed

theorem indices_contiguous_witness:
  "(\<exists>rep w'. execute_actions
      [PDict [(''type'', PStr ''click''), (''selector'', PStr ''.btn'')],
       PDict [(''steps'', PList [PDict [(''type'', PStr ''scroll'')],
                                 PDict [(''type'', PStr ''click'')]])],
       PDict [(''type'', PStr ''wait'')]] demo_env [] = (Inr rep, w') \<and>
      map status (details rep) = [''success'', ''failed'', ''skipped'', ''success''] \<and>
      map index (details rep) = [0, 1, 2, 3]) \<and>
   (\<exists>rs w1. execute_action_group demo_env
      (PDict [(''steps'', PList [PDict [(''type'', PStr ''scroll'')],
                                 PDict [(''type'', PStr ''click'')]])]) 5 [] = (Inr (rs, 2), w1) \<and>
      map status rs = [''failed'', ''skipped''] \<and> map index rs = [5, 6])"
proof -
  let ?g = "PDict [(''steps'', PList [PDict [(''type'', PStr ''scroll'')],
                                     PDict [(''type'', PStr ''click'')]])]"
  let ?acts = "[PDict [(''type'', PStr ''click''), (''selector'', PStr ''.btn'')], ?g,
       PDict [(''type'', PStr ''wait'')]]"
  have "\<exists>rep w'. execute_actions ?acts demo_env [] = (Inr rep, w') \<and>
      map status (details rep) = [''success'', ''failed'', ''skipped'', ''success'']"
    by (simp add: demo_run)
  then obtain rep w' where run: "execute_actions ?acts demo_env [] = (Inr rep, w')"
    and st: "map status (details rep) = [''success'', ''failed'', ''skipped'', ''success'']"
    by (elim exE conjE)
  from st have "length (details rep) = 4"
    by (auto simp: map_eq_Cons_conv)
  with indices_contiguous [of ?acts demo_env "[]" rep w'] run
  have ix: "map index (details rep) = [0, 1, 2, 3]"
    by (simp add: upt_rec)
  have "\<exists>rs w1. execute_action_group demo_env ?g 5 [] = (Inr (rs, 2), w1) \<and>
      map status rs = [''failed'', ''skipped'']"
    by (simp add: demo_eval)
  then obtain rs w1 where g: "execute_action_group demo_env ?g 5 [] = (Inr (rs, 2), w1)"
    and gst: "map status rs = [''failed'', ''skipped'']"
    by (elim exE conjE)
  from gst have "length rs = 2"
    by (auto simp: map_eq_Cons_conv)
  with indices_contiguous [of _ demo_env "[]" _ _ ?g 5 rs 2 w1] g
  have gix: "map index rs = [5, 6]"
    by (simp add: upt_rec)
  from run st ix have 1: "\<exists>rep w'. execute_actions ?acts demo_env [] = (Inr rep, w') \<and>
      map status (details rep) = [''success'', ''failed'', ''skipped'', ''success''] \<and>
      map index (details rep) = [0, 1, 2, 3]"
    by (intro exI conjI)
  from g gst gix have 2: "\<exists>rs w1. execute_action_group demo_env ?g 5 [] = (Inr (rs, 2), w1) \<and>
      map status rs = [''failed'', ''skipped''] \<and> map index rs = [5, 6]"
    by (intro exI conjI)
  from 1 2 show ?thesis by (rule conjI)
qed


lemma engine_status_add_result:
  "\<forall>r\<in>set (details rep). engine_status r \<Longrightarrow> engine_status r \<Longrightarrow>
     \<forall>x\<in>set (details (add_result rep r)). engine_status x"
  by (simp add: details_add_result)












text \<open>
  A run returns no report when the condition of a group raises: the group executor
  has no \<^verbatim>\<open>try\<close> around it, and neither has the run coordinator.
\<close>

lemma group_condition_raise_escapes:
  assumes "map_of g ''steps'' \<noteq> None"
    and "truthy (dict_get g ''condition'' PNone)"
    and "evaluate_condition E (dict_get g ''condition'' PNone) w = (Inl e, w1)"
  shows "execute_action_group E (PDict g) idx w = (Inl e, w1)"
    and "actions_loop E idx rep (PDict g # rest) w = (Inl e, w1)"
proof -
  from assms(2,3) show g: "execute_action_group E (PDict g) idx w = (Inl e, w1)"
    by (simp add: execute_action_group_def bindE_apply)
  from assms(1) g show "actions_loop E idx rep (PDict g # rest) w = (Inl e, w1)"
    by (simp add: actions_loop_Cons)
qed

end
